theory Spec2Isabelle
  imports Complex_Main "HOL-Library.Word"
begin

section \<open>Data model\<close>

text \<open>
  The background-removal engine of \<^verbatim>\<open>remover/bg_processor.py\<close> works on decoded
  PIL images. A decoded image is a grid of pixels stored row by row; every channel is
  an unsigned byte. Python's exceptions are values of the type \<open>error\<close>; a function
  that may raise returns \<open>error + 'a\<close>. Python integers are \<open>int\<close> or, where they
  cannot be negative, \<open>nat\<close>; NumPy's \<^verbatim>\<open>uint8\<close> arithmetic is arithmetic on
  \<open>8 word\<close>. A floating-point number is the real number it stands for; the
  floating-point operations whose rounding can decide a comparison are parameters of
  the model, like the imaging library.
\<close>

type_synonym u8 = "8 word"

datatype error = IndexError | ValueError | LibraryError

definition ebind :: "error + 'a \<Rightarrow> ('a \<Rightarrow> error + 'b) \<Rightarrow> error + 'b" where
  "ebind m f = (case m of Inl e \<Rightarrow> Inl e | Inr v \<Rightarrow> f v)"

fun foldE :: "('s \<Rightarrow> 'a \<Rightarrow> error + 's) \<Rightarrow> 'a list \<Rightarrow> 's \<Rightarrow> error + 's" where
  "foldE f [] s = Inr s"
| "foldE f (x # xs) s = ebind (f s x) (foldE f xs)"

fun mapE :: "('a \<Rightarrow> error + 'b) \<Rightarrow> 'a list \<Rightarrow> error + 'b list" where
  "mapE f [] = Inr []"
| "mapE f (x # xs) = ebind (f x) (\<lambda>v. ebind (mapE f xs) (\<lambda>vs. Inr (v # vs)))"

record 'a grid =
  width :: nat
  height :: nat
  pixels :: "'a list"

text \<open>The pixel at column \<open>x\<close> and row \<open>y\<close> of a grid, for stating properties.\<close>

definition pixel_at :: "'a grid \<Rightarrow> nat \<Rightarrow> nat \<Rightarrow> 'a" where
  "pixel_at g x y = pixels g ! (y * width g + x)"

definition wf_grid :: "'a grid \<Rightarrow> bool" where
  "wf_grid g = (length (pixels g) = width g * height g)"

definition same_size :: "'a grid \<Rightarrow> 'b grid \<Rightarrow> bool" where
  "same_size a b = (width a = width b \<and> height a = height b)"

text \<open>
  \<^verbatim>\<open>Image.getpixel\<close> and \<^verbatim>\<open>Image.putpixel\<close> raise \<^verbatim>\<open>IndexError\<close> outside the
  image. All coordinates the engine computes are non-negative, so they are naturals.
\<close>

definition getpixel :: "'a grid \<Rightarrow> nat \<Rightarrow> nat \<Rightarrow> error + 'a" where
  "getpixel g x y =
     (if x < width g \<and> y < height g then Inr (pixel_at g x y) else Inl IndexError)"

definition putpixel :: "'a grid \<Rightarrow> nat \<Rightarrow> nat \<Rightarrow> 'a \<Rightarrow> error + 'a grid" where
  "putpixel g x y v =
     (if x < width g \<and> y < height g
      then Inr (g\<lparr>pixels := (pixels g)[y * width g + x := v]\<rparr>)
      else Inl IndexError)"

text \<open>\<^verbatim>\<open>Image.new(mode, (w, h), v)\<close>.\<close>

definition new_image :: "nat \<Rightarrow> nat \<Rightarrow> 'a \<Rightarrow> 'a grid" where
  "new_image w h v = \<lparr>width = w, height = h, pixels = replicate (w * h) v\<rparr>"

text \<open>
  An array or image filled cell by cell by a loop over all its coordinates, where the
  value of a cell depends on its coordinates only.
\<close>

definition tabulate :: "nat \<Rightarrow> nat \<Rightarrow> (nat \<Rightarrow> nat \<Rightarrow> 'a) \<Rightarrow> 'a grid" where
  "tabulate w h f =
     \<lparr>width = w, height = h, pixels = map (\<lambda>i. f (i mod w) (i div w)) [0..<w * h]\<rparr>"

text \<open>
  The modes a decoded image has here: one band (\<open>L\<close>), luminance and alpha
  (\<open>LA\<close>), \<open>RGB\<close> and \<open>RGBA\<close>. A pixel of the decoded image is the list of its
  band values.
\<close>

datatype mode = L | LA | RGB | RGBA

fun bands :: "mode \<Rightarrow> nat" where
  "bands L = 1"
| "bands LA = 2"
| "bands RGB = 3"
| "bands RGBA = 4"

record image =
  mode :: mode
  raster :: "u8 list grid"

definition wf_image :: "image \<Rightarrow> bool" where
  "wf_image img =
     (0 < width (raster img) \<and> 0 < height (raster img) \<and> wf_grid (raster img) \<and>
      list_all (\<lambda>p. length p = bands (mode img)) (pixels (raster img)))"

type_synonym rgba = "u8 \<times> u8 \<times> u8 \<times> u8"

definition alpha :: "rgba \<Rightarrow> u8" where
  "alpha p = (case p of (r, g, b, a) \<Rightarrow> a)"

definition transparent :: rgba where
  "transparent = (0, 0, 0, 0)"

text \<open>\<^verbatim>\<open>img.convert('RGBA')\<close> and \<^verbatim>\<open>img.convert('RGB')\<close>, pixel by pixel.\<close>

fun to_rgba :: "mode \<Rightarrow> u8 list \<Rightarrow> rgba" where
  "to_rgba L p = (p ! 0, p ! 0, p ! 0, 255)"
| "to_rgba LA p = (p ! 0, p ! 0, p ! 0, p ! 1)"
| "to_rgba RGB p = (p ! 0, p ! 1, p ! 2, 255)"
| "to_rgba RGBA p = (p ! 0, p ! 1, p ! 2, p ! 3)"

fun to_rgb :: "mode \<Rightarrow> u8 list \<Rightarrow> u8 list" where
  "to_rgb L p = [p ! 0, p ! 0, p ! 0]"
| "to_rgb LA p = [p ! 0, p ! 0, p ! 0]"
| "to_rgb RGB p = [p ! 0, p ! 1, p ! 2]"
| "to_rgb RGBA p = [p ! 0, p ! 1, p ! 2]"

definition convert_RGBA :: "image \<Rightarrow> rgba grid" where
  "convert_RGBA img =
     \<lparr>width = width (raster img), height = height (raster img),
      pixels = map (to_rgba (mode img)) (pixels (raster img))\<rparr>"

definition convert_RGB :: "image \<Rightarrow> u8 list grid" where
  "convert_RGB img =
     \<lparr>width = width (raster img), height = height (raster img),
      pixels = map (to_rgb (mode img)) (pixels (raster img))\<rparr>"

text \<open>
  The filters of the imaging library that the engine calls are not part of the
  repository. They are parameters of the model: each takes an image and returns an
  image or raises. So is the floating-point arithmetic of the platform, whose results
  are rounded: the four operations and \<^verbatim>\<open>**\<close> on Python floats, and NumPy's
  \<^verbatim>\<open>sqrt\<close>, \<^verbatim>\<open>** 2\<close>, \<^verbatim>\<open>sum\<close> and \<^verbatim>\<open>mean\<close> on \<^verbatim>\<open>float64\<close> arrays.
\<close>

record pil =
  MedianFilter :: "u8 grid \<Rightarrow> error + u8 grid"
  GaussianBlur :: "u8 grid \<Rightarrow> error + u8 grid"
  convert_L :: "image \<Rightarrow> error + u8 grid"
  FIND_EDGES :: "u8 grid \<Rightarrow> error + u8 grid"
  Contrast_enhance :: "u8 grid \<Rightarrow> error + u8 grid"
  EDGE_ENHANCE_MORE :: "u8 grid \<Rightarrow> error + u8 grid"
  blend :: "u8 grid \<Rightarrow> u8 grid \<Rightarrow> error + u8 grid"
  float_add :: "real \<Rightarrow> real \<Rightarrow> real"
  float_sub :: "real \<Rightarrow> real \<Rightarrow> real"
  float_mul :: "real \<Rightarrow> real \<Rightarrow> real"
  float_div :: "real \<Rightarrow> real \<Rightarrow> real"
  float_pow :: "real \<Rightarrow> real \<Rightarrow> real"
  np_sqrt :: "real \<Rightarrow> real"
  np_square :: "real \<Rightarrow> real"
  np_sum :: "real list \<Rightarrow> real"
  np_mean :: "real list \<Rightarrow> real"

section \<open>The compositing loop\<close>

text \<open>
  Every strategy ends with the same pair of nested loops
  (\<^verbatim>\<open>for x in range(width): for y in range(height): ...\<close>) that may write the pixel
  \<open>(x, y)\<close> of the result. \<open>for_each_pixel\<close> runs such a loop in the source's
  order: \<open>body x y\<close> is the pixel to write, if any, or the exception the body raises.
\<close>

definition paint ::
  "(nat \<Rightarrow> nat \<Rightarrow> error + 'a option) \<Rightarrow> 'a grid \<Rightarrow> nat \<times> nat \<Rightarrow> error + 'a grid" where
  "paint body res c =
     (case c of (x, y) \<Rightarrow>
        ebind (body x y) (\<lambda>v. case v of None \<Rightarrow> Inr res | Some p \<Rightarrow> putpixel res x y p))"

definition for_each_pixel ::
  "(nat \<Rightarrow> nat \<Rightarrow> error + 'a option) \<Rightarrow> nat \<Rightarrow> nat \<Rightarrow> 'a grid \<Rightarrow> error + 'a grid" where
  "for_each_pixel body w h res = foldE (paint body) (List.product [0..<w] [0..<h]) res"

text \<open>
  \<^verbatim>\<open>if mask.getpixel((x, y)) > t: result.putpixel((x, y), src.getpixel((x, y)))\<close>
  on a fresh transparent result of the size \<open>w\<close> by \<open>h\<close>.
\<close>

definition composite_body :: "nat \<Rightarrow> u8 grid \<Rightarrow> rgba grid \<Rightarrow> nat \<Rightarrow> nat \<Rightarrow> error + rgba option" where
  "composite_body t mask_img src x y =
     ebind (getpixel mask_img x y) (\<lambda>m.
       if t < unat m then ebind (getpixel src x y) (\<lambda>p. Inr (Some p)) else Inr None)"

definition composite :: "nat \<Rightarrow> u8 grid \<Rightarrow> rgba grid \<Rightarrow> nat \<Rightarrow> nat \<Rightarrow> error + rgba grid" where
  "composite t mask_img src w h =
     for_each_pixel (composite_body t mask_img src) w h (new_image w h transparent)"

section \<open>Strategy 1: \<^verbatim>\<open>grabcut_simulation\<close>\<close>

text \<open>
  \<^verbatim>\<open>mask[cy-my:cy+my, cx-mx:cx+mx] = 255\<close> with \<^verbatim>\<open>cx, cy = width // 2, height // 2\<close>
  and \<^verbatim>\<open>mx, my = width // 4, height // 4\<close>.
\<close>

definition in_center_rect :: "nat \<Rightarrow> nat \<Rightarrow> nat \<Rightarrow> nat \<Rightarrow> bool" where
  "in_center_rect w h x y =
     (h div 2 - h div 4 \<le> y \<and> y < h div 2 + h div 4 \<and>
      w div 2 - w div 4 \<le> x \<and> x < w div 2 + w div 4)"

text \<open>
  \<^verbatim>\<open>np.sum((pixel_color[:3] - center_color[:3]) ** 2)\<close>: both operands are
  \<^verbatim>\<open>uint8\<close> arrays, so the difference and the square are computed modulo 256; the
  sum is accumulated in a wide integer. The square root is taken of this integer and
  compared with 50, which a correctly rounded root decides as the exact root does.
\<close>

definition sum_sq_u8 :: "u8 list \<Rightarrow> u8 list \<Rightarrow> nat" where
  "sum_sq_u8 p c = sum_list (map unat (map2 (\<lambda>a b. (a - b) ^ 2) (take 3 p) (take 3 c)))"

definition color_diff :: "u8 list \<Rightarrow> u8 list \<Rightarrow> real" where
  "color_diff p c = sqrt (real (sum_sq_u8 p c))"

text \<open>
  The mask before the median filter. Indexing the array of a one-band image gives a
  scalar, and \<^verbatim>\<open>pixel_color[:3]\<close> on a scalar raises \<^verbatim>\<open>IndexError\<close>.
\<close>

definition grabcut_mask :: "image \<Rightarrow> error + u8 grid" where
  "grabcut_mask img =
     (let w = width (raster img); h = height (raster img) in
      ebind (getpixel (raster img) (w div 2) (h div 2)) (\<lambda>center_color.
        if bands (mode img) = 1 then Inl IndexError
        else Inr (tabulate w h (\<lambda>x y.
               if in_center_rect w h x y \<or> color_diff (pixel_at (raster img) x y) center_color < 50
               then 255 else 0))))"

definition grabcut_simulation :: "pil \<Rightarrow> image \<Rightarrow> error + rgba grid" where
  "grabcut_simulation lib img =
     ebind (grabcut_mask img) (\<lambda>mask_arr.
     ebind (MedianFilter lib mask_arr) (\<lambda>mask_img.
       composite 128 mask_img (convert_RGBA img) (width (raster img)) (height (raster img))))"

section \<open>Strategy 2: \<^verbatim>\<open>color_clustering_removal\<close>\<close>

definition row_of :: "'a grid \<Rightarrow> nat \<Rightarrow> 'a list" where
  "row_of g y = map (\<lambda>x. pixel_at g x y) [0..<width g]"

definition column_of :: "'a grid \<Rightarrow> nat \<Rightarrow> 'a list" where
  "column_of g x = map (\<lambda>y. pixel_at g x y) [0..<height g]"

text \<open>The first and last row, then the first and last column.\<close>

definition edge_pixels :: "u8 list grid \<Rightarrow> u8 list list" where
  "edge_pixels a =
     row_of a 0 @ row_of a (height a - 1) @ column_of a 0 @ column_of a (width a - 1)"

text \<open>
  \<^verbatim>\<open>np.mean(edge_pixels, axis=0)\<close>, the mean of each of the three columns, and
  \<^verbatim>\<open>np.sqrt(np.sum((pixel - bg_color) ** 2))\<close>, in floating point.
\<close>

definition mean_color :: "pil \<Rightarrow> u8 list list \<Rightarrow> real list" where
  "mean_color lib ps = map (\<lambda>i. np_mean lib (map (\<lambda>p. real (unat (p ! i))) ps)) [0..<3]"

definition color_distance :: "pil \<Rightarrow> u8 list \<Rightarrow> real list \<Rightarrow> real" where
  "color_distance lib p bg =
     np_sqrt lib (np_sum lib
       (map (\<lambda>i. np_square lib (float_sub lib (real (unat (p ! i))) (bg ! i))) [0..<3]))"

definition edge_distance :: "nat \<Rightarrow> nat \<Rightarrow> nat \<Rightarrow> nat \<Rightarrow> nat" where
  "edge_distance w h x y = min (min x y) (min (w - x - 1) (h - y - 1))"

text \<open>\<^verbatim>\<open>threshold = 60 + (edge_distance * 0.5)\<close>.\<close>

definition threshold :: "pil \<Rightarrow> nat \<Rightarrow> nat \<Rightarrow> nat \<Rightarrow> nat \<Rightarrow> real" where
  "threshold lib w h x y = float_add lib 60 (float_mul lib (real (edge_distance w h x y)) (1 / 2))"

definition clustering_mask :: "pil \<Rightarrow> u8 list grid \<Rightarrow> u8 grid" where
  "clustering_mask lib a =
     (let w = width a; h = height a; bg_color = mean_color lib (edge_pixels a) in
      tabulate w h (\<lambda>x y.
        if color_distance lib (pixel_at a x y) bg_color > threshold lib w h x y
        then 255 else 0))"

definition color_clustering_removal :: "pil \<Rightarrow> image \<Rightarrow> error + rgba grid" where
  "color_clustering_removal lib img =
     (let a = convert_RGB img in
      if width a = 0 \<or> height a = 0 then Inl IndexError
      else ebind (GaussianBlur lib (clustering_mask lib a)) (\<lambda>mask_img.
             composite 100 mask_img (convert_RGBA img) (width a) (height a)))"

section \<open>Strategy 3: \<^verbatim>\<open>advanced_edge_segmentation\<close>\<close>

text \<open>
  \<^verbatim>\<open>create_distance_mask\<close>: the distance to the nearest of the first 100 edge points;
  \<open>None\<close> stands for \<^verbatim>\<open>float('inf')\<close>.
\<close>

definition edge_points :: "u8 grid \<Rightarrow> (nat \<times> nat) list" where
  "edge_points edges =
     filter (\<lambda>(x, y). 50 < unat (pixel_at edges x y))
       (List.product [0..<width edges] [0..<height edges])"

definition point_distance :: "nat \<Rightarrow> nat \<Rightarrow> nat \<times> nat \<Rightarrow> real" where
  "point_distance x y e =
     (case e of (ex, ey) \<Rightarrow>
        sqrt (real_of_int ((int x - int ex) ^ 2 + (int y - int ey) ^ 2)))"

definition min_distance :: "nat \<Rightarrow> nat \<Rightarrow> (nat \<times> nat) list \<Rightarrow> real option" where
  "min_distance x y es =
     fold (\<lambda>e m. case m of None \<Rightarrow> Some (point_distance x y e)
                 | Some d \<Rightarrow> Some (min d (point_distance x y e))) es None"

definition mask_value :: "real option \<Rightarrow> u8" where
  "mask_value m =
     (case m of None \<Rightarrow> 0
      | Some d \<Rightarrow> if d < 20 then 255
                  else if d < 50 then word_of_int \<lfloor>255 * (50 - d) / 30\<rfloor>
                  else 0)"

definition create_distance_mask :: "u8 grid \<Rightarrow> u8 grid" where
  "create_distance_mask edges =
     tabulate (width edges) (height edges)
       (\<lambda>x y. mask_value (min_distance x y (take 100 (edge_points edges))))"

definition advanced_edge_segmentation :: "pil \<Rightarrow> image \<Rightarrow> error + rgba grid" where
  "advanced_edge_segmentation lib img =
     ebind (convert_L lib img) (\<lambda>gray.
     ebind (FIND_EDGES lib gray) (\<lambda>edges1.
     ebind (Contrast_enhance lib gray) (\<lambda>enhanced.
     ebind (EDGE_ENHANCE_MORE lib enhanced) (\<lambda>edges2.
     ebind (blend lib edges1 edges2) (\<lambda>edges_combined.
       composite 128 (create_distance_mask edges_combined) (convert_RGBA img)
         (width (raster img)) (height (raster img)))))))"

section \<open>The consensus combiner: \<^verbatim>\<open>combine_results\<close>\<close>

text \<open>
  The votes and the channel sums of one pixel position are Python integers. A result
  whose pixel has \<^verbatim>\<open>pixel[3] > 0\<close> votes and adds its four channels.
\<close>

type_synonym tally = "int \<times> int \<times> int \<times> int \<times> int"

definition count_vote :: "nat \<Rightarrow> nat \<Rightarrow> tally \<Rightarrow> rgba grid \<Rightarrow> error + tally" where
  "count_vote x y t result =
     (case t of (votes, s0, s1, s2, s3) \<Rightarrow>
        ebind (getpixel result x y) (\<lambda>pixel.
          case pixel of (r, g, b, a) \<Rightarrow>
            if 0 < uint a
            then Inr (votes + 1, s0 + uint r, s1 + uint g, s2 + uint b, s3 + uint a)
            else Inr t))"

definition final_pixel :: "tally \<Rightarrow> rgba" where
  "final_pixel t =
     (case t of (votes, s0, s1, s2, s3) \<Rightarrow>
        (word_of_int (s0 div votes), word_of_int (s1 div votes),
         word_of_int (s2 div votes), word_of_int (s3 div votes)))"

definition combine_body :: "rgba grid list \<Rightarrow> nat \<Rightarrow> nat \<Rightarrow> error + rgba option" where
  "combine_body results x y =
     ebind (foldE (count_vote x y) results (0, 0, 0, 0, 0)) (\<lambda>t.
       if 2 \<le> fst t then Inr (Some (final_pixel t)) else Inr None)"

definition combine_results :: "rgba grid list \<Rightarrow> rgba grid \<Rightarrow> error + rgba grid" where
  "combine_results results original =
     for_each_pixel (combine_body results) (width original) (height original)
       (new_image (width original) (height original) transparent)"

section \<open>Strategy 4: \<^verbatim>\<open>smart_background_removal_v2\<close>\<close>

text \<open>\<^verbatim>\<open>range(0, n, step)\<close> for a positive step.\<close>

definition range_step :: "nat \<Rightarrow> nat \<Rightarrow> nat list" where
  "range_step n step = map (\<lambda>k. k * step) [0..<(n + step - 1) div step]"

definition border_width :: "nat \<Rightarrow> nat \<Rightarrow> nat" where
  "border_width w h = min w h div 20"

text \<open>The coordinates the two sampling loops read, in the order they read them.\<close>

definition sample_coords :: "nat \<Rightarrow> nat \<Rightarrow> (nat \<times> nat) list" where
  "sample_coords w h =
     concat (map (\<lambda>i. concat (map (\<lambda>j. [(i, j), (i, h - 1 - j)]) [0..<border_width w h]))
               (range_step w (max 1 (w div 50))))
     @ concat (map (\<lambda>i. concat (map (\<lambda>j. [(j, i), (w - 1 - j, i)]) [0..<border_width w h]))
               (range_step h (max 1 (h div 50))))"

definition sample_points :: "rgba grid \<Rightarrow> error + rgba list" where
  "sample_points img =
     mapE (\<lambda>(x, y). getpixel img x y) (sample_coords (width img) (height img))"

text \<open>
  \<^verbatim>\<open>Counter(sample_points).most_common(1)[0][0]\<close>. A counter keeps its keys in the
  order of first insertion; \<^verbatim>\<open>most_common(1)\<close> is the first entry with the largest
  count, and the empty list for an empty counter, whose element 0 does not exist.
\<close>

fun counter_add :: "'a \<Rightarrow> ('a \<times> nat) list \<Rightarrow> ('a \<times> nat) list" where
  "counter_add x [] = [(x, 1)]"
| "counter_add x ((k, n) # kvs) =
     (if k = x then (k, n + 1) # kvs else (k, n) # counter_add x kvs)"

definition Counter :: "'a list \<Rightarrow> ('a \<times> nat) list" where
  "Counter xs = fold counter_add xs []"

definition first_max :: "('a \<times> nat) \<Rightarrow> ('a \<times> nat) list \<Rightarrow> ('a \<times> nat)" where
  "first_max kv kvs = fold (\<lambda>c best. if snd best < snd c then c else best) kvs kv"

definition most_common_key :: "('a \<times> nat) list \<Rightarrow> error + 'a" where
  "most_common_key c =
     (case c of [] \<Rightarrow> Inl IndexError | kv # kvs \<Rightarrow> Inr (fst (first_max kv kvs)))"

text \<open>
  The adaptive tolerance and the colour distance of the pixel with index \<open>i\<close>, in
  floating point. The squares of integers are integers; \<^verbatim>\<open>** 0.5\<close>, \<^verbatim>\<open>width/2\<close>,
  \<^verbatim>\<open>** 2\<close> on the quotient and the operations on their results are operations on
  floats. \<^verbatim>\<open>max_distance\<close> is not 0 for an image that has a pixel, so the division
  does not raise.
\<close>

definition tolerance :: "pil \<Rightarrow> nat \<Rightarrow> nat \<Rightarrow> nat \<Rightarrow> real" where
  "tolerance lib w h i =
     (let x = i mod w; y = i div w; center_x = w div 2; center_y = h div 2;
          center_distance =
            float_pow lib
              (real_of_int ((int x - int center_x) ^ 2 + (int y - int center_y) ^ 2)) (1 / 2);
          max_distance =
            float_pow lib
              (float_add lib (float_pow lib (float_div lib (real w) 2) 2)
                             (float_pow lib (float_div lib (real h) 2) 2)) (1 / 2);
          distance_factor = float_div lib center_distance max_distance
      in float_add lib 30 (float_mul lib distance_factor 40))"

definition rgb_distance :: "pil \<Rightarrow> rgba \<Rightarrow> rgba \<Rightarrow> real" where
  "rgb_distance lib item bg =
     (case item of (r, g, b, a) \<Rightarrow> case bg of (r', g', b', a') \<Rightarrow>
        float_pow lib
          (real_of_int ((uint r - uint r') ^ 2 + (uint g - uint g') ^ 2 + (uint b - uint b') ^ 2))
          (1 / 2))"

text \<open>
  The test \<^verbatim>\<open>color_distance < tolerance\<close> that classifies a pixel as background,
  and the list \<^verbatim>\<open>new_data\<close> built from \<^verbatim>\<open>enumerate(data)\<close>.
\<close>

definition classified_background :: "pil \<Rightarrow> nat \<Rightarrow> nat \<Rightarrow> rgba \<Rightarrow> nat \<Rightarrow> rgba \<Rightarrow> bool" where
  "classified_background lib w h bg_color i item =
     (rgb_distance lib item bg_color < tolerance lib w h i)"

definition classify :: "pil \<Rightarrow> nat \<Rightarrow> nat \<Rightarrow> rgba \<Rightarrow> nat \<Rightarrow> rgba \<Rightarrow> rgba" where
  "classify lib w h bg_color i item =
     (if classified_background lib w h bg_color i item then (255, 255, 255, 0) else item)"

definition new_data :: "pil \<Rightarrow> rgba grid \<Rightarrow> rgba \<Rightarrow> rgba list" where
  "new_data lib img bg_color =
     map (\<lambda>(i, item). classify lib (width img) (height img) bg_color i item)
       (enumerate 0 (pixels img))"

text \<open>\<^verbatim>\<open>remove_small_regions\<close>.\<close>

definition occupancy_mask :: "rgba grid \<Rightarrow> u8 grid" where
  "occupancy_mask img =
     tabulate (width img) (height img) (\<lambda>x y. if 0 < uint (alpha (pixel_at img x y)) then 255 else 0)"

definition remove_small_regions :: "pil \<Rightarrow> rgba grid \<Rightarrow> error + rgba grid" where
  "remove_small_regions lib img =
     ebind (MedianFilter lib (occupancy_mask img)) (\<lambda>mask_img.
       composite 128 mask_img img (width img) (height img))"

text \<open>The body of the \<^verbatim>\<open>try\<close> block, and the function with its handler.\<close>

definition smart_v2_body :: "pil \<Rightarrow> image \<Rightarrow> error + rgba grid" where
  "smart_v2_body lib source =
     (let img = convert_RGBA source in
      ebind (sample_points img) (\<lambda>points.
      ebind (most_common_key (Counter points)) (\<lambda>bg_color.
        remove_small_regions lib (img\<lparr>pixels := new_data lib img bg_color\<rparr>))))"

definition smart_background_removal_v2 :: "pil \<Rightarrow> image \<Rightarrow> error + rgba grid" where
  "smart_background_removal_v2 lib source =
     (case smart_v2_body lib source of
        Inr r \<Rightarrow> Inr r
      | Inl e \<Rightarrow> Inr (convert_RGBA source))"

section \<open>The ensemble and the entry points\<close>

definition ensemble_body :: "pil \<Rightarrow> image \<Rightarrow> error + rgba grid" where
  "ensemble_body lib img =
     (let original = convert_RGBA img in
      ebind (grabcut_simulation lib img) (\<lambda>result1.
      ebind (color_clustering_removal lib img) (\<lambda>result2.
      ebind (advanced_edge_segmentation lib img) (\<lambda>result3.
        combine_results [result1, result2, result3] original))))"

definition advanced_background_removal :: "pil \<Rightarrow> image \<Rightarrow> error + rgba grid" where
  "advanced_background_removal lib img =
     (case ensemble_body lib img of
        Inr r \<Rightarrow> Inr r
      | Inl e \<Rightarrow> smart_background_removal_v2 lib img)"

definition remove_white_background :: "pil \<Rightarrow> image \<Rightarrow> error + rgba grid" where
  "remove_white_background lib img = smart_background_removal_v2 lib img"

definition smart_background_removal :: "pil \<Rightarrow> image \<Rightarrow> error + rgba grid" where
  "smart_background_removal lib img = advanced_background_removal lib img"

definition edge_based_removal :: "pil \<Rightarrow> image \<Rightarrow> error + rgba grid" where
  "edge_based_removal lib img = advanced_edge_segmentation lib img"

definition color_threshold_removal :: "pil \<Rightarrow> image \<Rightarrow> error + rgba grid" where
  "color_threshold_removal lib img = color_clustering_removal lib img"

text \<open>
  The dispatch of \<^verbatim>\<open>views.home\<close>: \<^verbatim>\<open>request.POST.get('method', 'smart')\<close> and the
  chain of comparisons that follows.
\<close>

definition selected_method :: "string option \<Rightarrow> string" where
  "selected_method m = (case m of None \<Rightarrow> ''smart'' | Some s \<Rightarrow> s)"

definition process :: "pil \<Rightarrow> string option \<Rightarrow> image \<Rightarrow> error + rgba grid" where
  "process lib m img =
     (let method = selected_method m in
      if method = ''white'' then remove_white_background lib img
      else if method = ''edge'' then edge_based_removal lib img
      else if method = ''color'' then color_threshold_removal lib img
      else smart_background_removal lib img)"

text \<open>
  The branch of \<^verbatim>\<open>views.home\<close> that handles an upload: the result is saved and the
  browser is redirected to it; any exception is caught, reported with
  \<^verbatim>\<open>messages.error\<close>, and the home page is rendered with no result. Saving the image
  is not modelled.
\<close>

datatype response = Redirect_result "rgba grid" | Home_with_error error

definition home :: "pil \<Rightarrow> string option \<Rightarrow> image \<Rightarrow> response" where
  "home lib m img =
     (case process lib m img of
        Inr result_img \<Rightarrow> Redirect_result result_img
      | Inl e \<Rightarrow> Home_with_error e)"

section \<open>Notions used to state the properties\<close>


text \<open>
  The tuple of Python integers that \<^verbatim>\<open>getpixel\<close> returns for an RGBA pixel, the pixels
  that vote (alpha above 0), and the integer average of channel \<open>i\<close> over a list of
  pixels.
\<close>

definition channels :: "rgba \<Rightarrow> int list" where
  "channels p = (case p of (r, g, b, a) \<Rightarrow> [uint r, uint g, uint b, uint a])"

definition voters :: "rgba list \<Rightarrow> rgba list" where
  "voters ps = filter (\<lambda>p. 0 < uint (alpha p)) ps"

definition channel_average :: "rgba list \<Rightarrow> nat \<Rightarrow> int" where
  "channel_average ps i = (\<Sum>p\<leftarrow>ps. channels p ! i) div int (length ps)"

text \<open>A one-pixel grid, and a one-pixel decoded image.\<close>

definition single :: "'a \<Rightarrow> 'a grid" where
  "single p = \<lparr>width = 1, height = 1, pixels = [p]\<rparr>"

definition single_image :: "mode \<Rightarrow> u8 list \<Rightarrow> image" where
  "single_image m p = \<lparr>mode = m, raster = single p\<rparr>"

text \<open>
  The Euclidean distance over the first three channels, computed on the integers the
  bytes stand for, without wrap-around.
\<close>

definition euclidean_rgb :: "u8 list \<Rightarrow> u8 list \<Rightarrow> real" where
  "euclidean_rgb p c =
     sqrt (\<Sum>(a, b)\<leftarrow>zip (take 3 p) (take 3 c). (real (unat a) - real (unat b)) ^ 2)"

text \<open>
  What the engine expects of the imaging library on every image: a filter returns an
  image of the size of its argument, the grey conversion an image of the size of the
  source, and blending two images of one size an image of that size.
\<close>

definition keeps_size :: "('a grid \<Rightarrow> error + 'b grid) \<Rightarrow> bool" where
  "keeps_size f = (\<forall>g. \<exists>g'. f g = Inr g' \<and> same_size g' g)"

definition pil_ok :: "pil \<Rightarrow> bool" where
  "pil_ok lib =
     (keeps_size (MedianFilter lib) \<and> keeps_size (GaussianBlur lib) \<and>
      (\<forall>img. \<exists>g. convert_L lib img = Inr g \<and> same_size g (raster img)) \<and>
      keeps_size (FIND_EDGES lib) \<and> keeps_size (Contrast_enhance lib) \<and>
      keeps_size (EDGE_ENHANCE_MORE lib) \<and>
      (\<forall>a b. same_size a b \<longrightarrow> (\<exists>g. blend lib a b = Inr g \<and> same_size g a)))"

text \<open>
  What the properties of uniform images use of the floating-point operations: roots,
  quotients and products of numbers that are not negative are not negative, adding
  such a number does not make a number smaller, and the operations are exact on the
  values that occur when a colour is compared with itself.
\<close>

definition float_ok :: "pil \<Rightarrow> bool" where
  "float_ok lib =
     ((\<forall>x y. 0 \<le> x \<and> 0 \<le> y \<longrightarrow>
         0 \<le> float_pow lib x y \<and> 0 \<le> float_div lib x y \<and>
         0 \<le> float_mul lib x y \<and> x \<le> float_add lib x y) \<and>
      float_pow lib 0 (1 / 2) = 0 \<and>
      (\<forall>x. float_sub lib x x = 0) \<and>
      np_square lib 0 = 0 \<and> np_sum lib [0, 0, 0] = 0 \<and> np_sqrt lib 0 = 0 \<and>
      (\<forall>n k. 0 < n \<and> k \<le> (255 :: nat) \<longrightarrow> np_mean lib (replicate n (real k)) = real k))"

text \<open>
  A stand-in for the library in concrete examples: every filter returns its argument,
  the grey conversion keeps the first band, blending returns its first argument or
  raises \<^verbatim>\<open>ValueError\<close> when the sizes differ, and the floating-point operations
  do not round.
\<close>

definition first_band :: "image \<Rightarrow> u8 grid" where
  "first_band img =
     \<lparr>width = width (raster img), height = height (raster img),
      pixels = map (\<lambda>p. p ! 0) (pixels (raster img))\<rparr>"

definition stub_pil :: pil where
  "stub_pil =
     \<lparr>MedianFilter = Inr, GaussianBlur = Inr, convert_L = (\<lambda>img. Inr (first_band img)),
      FIND_EDGES = Inr, Contrast_enhance = Inr, EDGE_ENHANCE_MORE = Inr,
      blend = (\<lambda>a b. if same_size a b then Inr a else Inl ValueError),
      float_add = (\<lambda>x y. x + y), float_sub = (\<lambda>x y. x - y),
      float_mul = (\<lambda>x y. x * y), float_div = (\<lambda>x y. x / y),
      float_pow = (\<lambda>x y. x powr y), np_sqrt = sqrt, np_square = (\<lambda>x. x * x),
      np_sum = sum_list, np_mean = (\<lambda>xs. sum_list xs / real (length xs))\<rparr>"

text \<open>Concrete images used in examples.\<close>

definition two_pixel_column :: image where
  "two_pixel_column =
     \<lparr>mode = RGB, raster = \<lparr>width = 1, height = 2, pixels = [[100, 0, 0], [0, 0, 0]]\<rparr>\<rparr>"

definition uniform_image :: "nat \<Rightarrow> nat \<Rightarrow> u8 list \<Rightarrow> image" where
  "uniform_image w h p = \<lparr>mode = RGB, raster = new_image w h p\<rparr>"

text \<open>
  A 20 by 20 image of one colour with a block of 3 by 3 pixels of another colour at
  its centre.
\<close>

definition in_spot :: "nat \<Rightarrow> nat \<Rightarrow> bool" where
  "in_spot x y = (9 \<le> x \<and> x \<le> 11 \<and> 9 \<le> y \<and> y \<le> 11)"

definition spot_image :: image where
  "spot_image =
     \<lparr>mode = RGB,
      raster = tabulate 20 20 (\<lambda>x y. if in_spot x y then [200, 0, 0] else [10, 20, 30])\<rparr>"

text \<open>
  An image all of whose pixels are \<open>c\<close>, a mask that is 0 everywhere, a result all of
  whose pixels have alpha 0, and a filter that maps a well-formed mask that is 0
  everywhere to such a mask.
\<close>

definition uniform :: "image \<Rightarrow> u8 list \<Rightarrow> bool" where
  "uniform img c = list_all (\<lambda>p. p = c) (pixels (raster img))"

definition blank :: "u8 grid \<Rightarrow> bool" where
  "blank g = list_all (\<lambda>v. v = 0) (pixels g)"

definition fully_transparent :: "rgba grid \<Rightarrow> bool" where
  "fully_transparent r = list_all (\<lambda>p. alpha p = 0) (pixels r)"

definition keeps_blank :: "(u8 grid \<Rightarrow> error + u8 grid) \<Rightarrow> bool" where
  "keeps_blank f =
     (\<forall>g g'. blank g \<and> wf_grid g \<and> f g = Inr g' \<longrightarrow> blank g' \<and> wf_grid g')"


section \<open>Properties of the loops and grids\<close>

lemma ebind_simps [simp]:
  "ebind (Inl e) f = Inl e"
  "ebind (Inr v) f = f v"
  by (simp_all add: ebind_def)

lemma ebind_eq_Inr: "ebind m f = Inr r \<longleftrightarrow> (\<exists>v. m = Inr v \<and> f v = Inr r)"
  by (cases m) simp_all

lemma putpixel_Inr:
  "putpixel g x y v = Inr g' \<Longrightarrow>
     x < width g \<and> y < height g \<and> width g' = width g \<and> height g' = height g \<and>
     pixels g' = (pixels g)[y * width g + x := v]"
  by (auto simp: putpixel_def split: if_splits)

lemma paint_Inr:
  "paint body res (x, y) = Inr res' \<Longrightarrow>
     (body x y = Inr None \<and> res' = res) \<or>
     (\<exists>p. body x y = Inr (Some p) \<and> putpixel res x y p = Inr res')"
  by (auto simp: paint_def ebind_eq_Inr split: option.splits)

lemma paint_size:
  "paint body res c = Inr res' \<Longrightarrow>
     width res' = width res \<and> height res' = height res \<and>
     length (pixels res') = length (pixels res)"
  by (cases c) (auto dest!: paint_Inr putpixel_Inr)

lemma foldE_paint_size:
  "foldE (paint body) cs res = Inr r \<Longrightarrow>
     width r = width res \<and> height r = height res \<and> length (pixels r) = length (pixels res)"
proof (induction cs arbitrary: res)
  case Nil
  then show ?case by simp
next
  case (Cons c cs)
  from Cons.prems obtain res' where s: "paint body res c = Inr res'"
    and t: "foldE (paint body) cs res' = Inr r"
    by (auto simp: ebind_eq_Inr)
  from Cons.IH [OF t] paint_size [OF s] show ?case by simp
qed

lemma index_inj:
  fixes w :: nat
  assumes "x < w" "x' < w" "y * w + x = y' * w + x'"
  shows "x = x' \<and> y = y'"
proof -
  have "(y * w + x) mod w = x" "(y' * w + x') mod w = x'"
    using assms(1,2) by simp_all
  with assms(3) have x: "x = x'" by simp
  with assms(3) have "y * w = y' * w" by simp
  with assms(1) x show ?thesis by auto
qed

lemma paint_pixel:
  assumes s: "paint body res (cx, cy) = Inr res'"
    and x: "x < width res" and y: "y < height res" and wf: "wf_grid res"
  shows "pixel_at res' x y =
     (if (cx, cy) = (x, y) then (case body x y of Inr (Some p) \<Rightarrow> p | _ \<Rightarrow> pixel_at res x y)
      else pixel_at res x y)"
proof -
  have len: "y * width res + x < length (pixels res)"
  proof -
    have "y * width res + x < y * width res + width res" using x by simp
    also have "\<dots> = Suc y * width res" by simp
    also have "\<dots> \<le> height res * width res" using y by (intro mult_le_mono1) simp
    finally show ?thesis using wf by (simp add: wf_grid_def mult.commute)
  qed
  from paint_Inr [OF s] show ?thesis
  proof
    assume "body cx cy = Inr None \<and> res' = res"
    then show ?thesis by auto
  next
    assume "\<exists>p. body cx cy = Inr (Some p) \<and> putpixel res cx cy p = Inr res'"
    then obtain p where b: "body cx cy = Inr (Some p)" and pp: "putpixel res cx cy p = Inr res'"
      by blast
    from putpixel_Inr [OF pp] have cx: "cx < width res"
      and w: "width res' = width res"
      and px: "pixels res' = (pixels res)[cy * width res + cx := p]" by simp_all
    show ?thesis
    proof (cases "(cx, cy) = (x, y)")
      case True
      with b px w len show ?thesis by (simp add: pixel_at_def)
    next
      case False
      then have "cy * width res + cx \<noteq> y * width res + x"
        using index_inj [OF cx x] by blast
      then have "pixels res' ! (y * width res + x) = pixels res ! (y * width res + x)"
        using px by simp
      with w False show ?thesis by (auto simp: pixel_at_def)
    qed
  qed
qed

lemma foldE_paint_pixel:
  "foldE (paint body) cs res = Inr r \<Longrightarrow> x < width res \<Longrightarrow> y < height res \<Longrightarrow> wf_grid res \<Longrightarrow>
     pixel_at r x y =
       (if (x, y) \<in> set cs then (case body x y of Inr (Some p) \<Rightarrow> p | _ \<Rightarrow> pixel_at res x y)
        else pixel_at res x y)"
proof (induction cs arbitrary: res)
  case Nil
  then show ?case by simp
next
  case (Cons c cs)
  obtain cx cy where c: "c = (cx, cy)" by (cases c)
  from Cons.prems(1) obtain res' where s: "paint body res (cx, cy) = Inr res'"
    and t: "foldE (paint body) cs res' = Inr r"
    by (auto simp: ebind_eq_Inr c)
  from paint_size [OF s] Cons.prems have x': "x < width res'" and y': "y < height res'"
    and wf': "wf_grid res'" by (simp_all add: wf_grid_def)
  note ih = Cons.IH [OF t x' y' wf']
  note st = paint_pixel [OF s Cons.prems(2,3,4)]
  show ?case
  proof (cases "(cx, cy) = (x, y)")
    case True
    with ih st c show ?thesis by (auto split: sum.splits option.splits)
  next
    case False
    with ih st c show ?thesis by (auto split: sum.splits option.splits)
  qed
qed

lemma foldE_paint_body:
  "foldE (paint body) cs res = Inr r \<Longrightarrow> (x, y) \<in> set cs \<Longrightarrow> \<exists>v. body x y = Inr v"
proof (induction cs arbitrary: res)
  case Nil
  then show ?case by simp
next
  case (Cons c cs)
  obtain cx cy where c: "c = (cx, cy)" by (cases c)
  from Cons.prems(1) obtain res' where s: "paint body res (cx, cy) = Inr res'"
    and t: "foldE (paint body) cs res' = Inr r"
    by (auto simp: ebind_eq_Inr c)
  show ?case
  proof (cases "(x, y) = (cx, cy)")
    case True
    with paint_Inr [OF s] show ?thesis by auto
  next
    case False
    with Cons.prems(2) c have "(x, y) \<in> set cs" by auto
    from Cons.IH [OF t this] show ?thesis .
  qed
qed

lemma foldE_paint_total:
  "\<forall>(x, y) \<in> set cs. x < width res \<and> y < height res \<and> (\<exists>v. body x y = Inr v) \<Longrightarrow>
     \<exists>r. foldE (paint body) cs res = Inr r"
proof (induction cs arbitrary: res)
  case Nil
  then show ?case by simp
next
  case (Cons c cs)
  obtain cx cy where c: "c = (cx, cy)" by (cases c)
  from Cons.prems c obtain v where b: "body cx cy = Inr v" and cx: "cx < width res"
    and cy: "cy < height res" by auto
  then obtain res' where s: "paint body res (cx, cy) = Inr res'"
    by (cases v) (auto simp: paint_def putpixel_def)
  from paint_size [OF s] Cons.prems
  have "\<forall>(x, y) \<in> set cs. x < width res' \<and> y < height res' \<and> (\<exists>v. body x y = Inr v)"
    by auto
  from Cons.IH [OF this] s c show ?case by simp
qed

lemma product_upt_mem: "(x, y) \<in> set (List.product [0..<w] [0..<h]) \<longleftrightarrow> x < w \<and> y < h"
  by auto

lemma index_bound:
  fixes w :: nat
  assumes "x < w" "y < h"
  shows "y * w + x < w * h"
proof -
  have "y * w + x < y * w + w" using assms(1) by simp
  also have "\<dots> = Suc y * w" by simp
  also have "\<dots> \<le> h * w" using assms(2) by (intro mult_le_mono1) simp
  finally show ?thesis by (simp add: mult.commute)
qed

lemma new_image_simps [simp]:
  "width (new_image w h v) = w"
  "height (new_image w h v) = h"
  "wf_grid (new_image w h v)"
  by (simp_all add: new_image_def wf_grid_def)

lemma pixel_at_new_image: "x < w \<Longrightarrow> y < h \<Longrightarrow> pixel_at (new_image w h v) x y = v"
  using index_bound [of x w y h] by (simp add: pixel_at_def new_image_def)

lemma tabulate_simps [simp]:
  "width (tabulate w h f) = w"
  "height (tabulate w h f) = h"
  "wf_grid (tabulate w h f)"
  by (simp_all add: tabulate_def wf_grid_def)

lemma pixel_at_tabulate: "x < w \<Longrightarrow> y < h \<Longrightarrow> pixel_at (tabulate w h f) x y = f x y"
  using index_bound [of x w y h] by (simp add: pixel_at_def tabulate_def)

lemma for_each_pixel_size:
  assumes "for_each_pixel body w h (new_image w h v) = Inr r"
  shows "width r = w \<and> height r = h \<and> wf_grid r"
  using foldE_paint_size [OF assms [unfolded for_each_pixel_def]]
  by (simp add: wf_grid_def new_image_def)

lemma for_each_pixel_pixel:
  assumes r: "for_each_pixel body w h (new_image w h v) = Inr r" and x: "x < w" and y: "y < h"
  shows "pixel_at r x y = (case body x y of Inr (Some p) \<Rightarrow> p | _ \<Rightarrow> v)"
  using foldE_paint_pixel [OF r [unfolded for_each_pixel_def], of x y] x y
  by (simp add: pixel_at_new_image split: sum.splits option.splits)

lemma for_each_pixel_body:
  assumes "for_each_pixel body w h res = Inr r" "x < w" "y < h"
  shows "\<exists>v. body x y = Inr v"
  using foldE_paint_body [OF assms(1) [unfolded for_each_pixel_def], of x y] assms(2,3)
  by simp

lemma for_each_pixel_total:
  assumes "\<And>x y. x < w \<Longrightarrow> y < h \<Longrightarrow> \<exists>v. body x y = Inr v"
  shows "\<exists>r. for_each_pixel body w h (new_image w h v) = Inr r"
  unfolding for_each_pixel_def
  by (rule foldE_paint_total) (use assms in auto)

lemma composite_size:
  "composite t m src w h = Inr r \<Longrightarrow> width r = w \<and> height r = h \<and> wf_grid r"
  unfolding composite_def by (rule for_each_pixel_size)

lemma composite_body_Inr:
  "composite_body t m src x y = Inr v \<Longrightarrow>
     v = (if t < unat (pixel_at m x y) then Some (pixel_at src x y) else None)"
  by (auto simp: composite_body_def getpixel_def ebind_eq_Inr split: if_splits)

lemma composite_pixel:
  assumes r: "composite t m src w h = Inr r" and x: "x < w" and y: "y < h"
  shows "pixel_at r x y = (if t < unat (pixel_at m x y) then pixel_at src x y else transparent)"
proof -
  from for_each_pixel_body [OF r [unfolded composite_def] x y]
  obtain v where v: "composite_body t m src x y = Inr v" by blast
  from for_each_pixel_pixel [OF r [unfolded composite_def] x y] v composite_body_Inr [OF v]
  show ?thesis by simp
qed

lemma composite_total:
  assumes "w \<le> width m" "h \<le> height m" "w \<le> width src" "h \<le> height src"
  shows "\<exists>r. composite t m src w h = Inr r"
  unfolding composite_def
proof (rule for_each_pixel_total)
  fix x y assume "x < w" "y < h"
  with assms show "\<exists>v. composite_body t m src x y = Inr v"
    by (simp add: composite_body_def getpixel_def)
qed

lemma composite_blank:
  assumes r: "composite t m src w h = Inr r" and z: "\<And>x y. x < w \<Longrightarrow> y < h \<Longrightarrow> unat (pixel_at m x y) \<le> t"
    and x: "x < w" and y: "y < h"
  shows "pixel_at r x y = transparent"
  using composite_pixel [OF r x y] z [OF x y] by simp

section \<open>Properties of the consensus combiner\<close>

lemma getpixel_Inr: "x < width g \<Longrightarrow> y < height g \<Longrightarrow> getpixel g x y = Inr (pixel_at g x y)"
  by (simp add: getpixel_def)

lemma count_vote_tally:
  "\<forall>r \<in> set results. x < width r \<and> y < height r \<Longrightarrow>
     foldE (count_vote x y) results (v, s0, s1, s2, s3) =
       Inr (let vs = voters (map (\<lambda>r. pixel_at r x y) results) in
            (v + int (length vs),
             s0 + (\<Sum>p\<leftarrow>vs. channels p ! 0), s1 + (\<Sum>p\<leftarrow>vs. channels p ! 1),
             s2 + (\<Sum>p\<leftarrow>vs. channels p ! 2), s3 + (\<Sum>p\<leftarrow>vs. channels p ! 3)))"
proof (induction results arbitrary: v s0 s1 s2 s3)
  case Nil
  then show ?case by (simp add: voters_def)
next
  case (Cons r rs)
  obtain cr cg cb ca where p: "pixel_at r x y = (cr, cg, cb, ca)" by (cases "pixel_at r x y")
  from Cons.prems have g: "getpixel r x y = Inr (cr, cg, cb, ca)"
    by (simp add: getpixel_Inr p)
  from Cons.prems have rest: "\<forall>r \<in> set rs. x < width r \<and> y < height r" by simp
  show ?case
  proof (cases "0 < uint ca")
    case True
    then have "count_vote x y (v, s0, s1, s2, s3) r =
        Inr (v + 1, s0 + uint cr, s1 + uint cg, s2 + uint cb, s3 + uint ca)"
      by (simp add: count_vote_def g)
    with Cons.IH [OF rest] True p show ?thesis
      by (simp add: voters_def alpha_def channels_def Let_def)
  next
    case False
    then have "count_vote x y (v, s0, s1, s2, s3) r = Inr (v, s0, s1, s2, s3)"
      by (simp add: count_vote_def g)
    with Cons.IH [OF rest] False p show ?thesis
      by (simp add: voters_def alpha_def Let_def)
  qed
qed

lemma channels_nth_bounds: "i < 4 \<Longrightarrow> 0 \<le> channels p ! i \<and> channels p ! i \<le> 255"
proof -
  have b: "uint (w :: u8) \<le> 255" for w
    using uint_lt2p [of w] by simp
  assume "i < 4"
  then consider "i = 0" | "i = 1" | "i = 2" | "i = 3" by linarith
  then show ?thesis
    by cases (auto simp: channels_def b split: prod.splits)
qed

lemma channel_sum_bounds:
  "i < 4 \<Longrightarrow> 0 \<le> (\<Sum>p\<leftarrow>ps. channels p ! i) \<and> (\<Sum>p\<leftarrow>ps. channels p ! i) \<le> 255 * int (length ps)"
proof (induction ps)
  case Nil
  then show ?case by simp
next
  case (Cons p ps)
  with channels_nth_bounds [of i p] show ?case by simp
qed

lemma channel_average_bounds:
  assumes "i < 4"
  shows "0 \<le> channel_average ps i \<and> channel_average ps i < 256"
proof (cases "ps = []")
  case True
  then show ?thesis by (simp add: channel_average_def)
next
  case False
  then have n: "0 < int (length ps)" by simp
  from channel_sum_bounds [OF assms, of ps]
  have lo: "0 \<le> (\<Sum>p\<leftarrow>ps. channels p ! i)" and hi: "(\<Sum>p\<leftarrow>ps. channels p ! i) \<le> 255 * int (length ps)"
    by simp_all
  from lo n have "0 \<le> (\<Sum>p\<leftarrow>ps. channels p ! i) div int (length ps)"
    by (simp add: pos_imp_zdiv_nonneg_iff)
  moreover from hi n have "(\<Sum>p\<leftarrow>ps. channels p ! i) div int (length ps) \<le> 255"
    by (metis zdiv_mono1 nonzero_mult_div_cancel_right less_irrefl)
  ultimately show ?thesis by (simp add: channel_average_def)
qed

lemma uint_word_of_average:
  "i < 4 \<Longrightarrow> uint (word_of_int (channel_average ps i) :: u8) = channel_average ps i"
  using channel_average_bounds [of i ps]
  by (simp add: uint_word_of_int_eq take_bit_int_eq_self)

lemma channels_final_pixel:
  "channels (final_pixel (int (length vs), (\<Sum>p\<leftarrow>vs. channels p ! 0), (\<Sum>p\<leftarrow>vs. channels p ! 1),
       (\<Sum>p\<leftarrow>vs. channels p ! 2), (\<Sum>p\<leftarrow>vs. channels p ! 3))) = map (channel_average vs) [0..<4]"
proof -
  have u: "[0..<4] = [0, 1, 2, 3::nat]" by (simp add: upt_rec)
  show ?thesis
    using uint_word_of_average [of 0 vs] uint_word_of_average [of 1 vs]
      uint_word_of_average [of 2 vs] uint_word_of_average [of 3 vs]
    by (simp add: final_pixel_def channels_def u channel_average_def)
qed

lemma alpha_average_positive:
  assumes "vs \<noteq> []" "\<forall>p \<in> set vs. 0 < uint (alpha p)"
  shows "0 < channel_average vs 3"
proof -
  have "int (length vs) \<le> (\<Sum>p\<leftarrow>vs. channels p ! 3)"
    using assms(2)
  proof (induction vs)
    case Nil
    then show ?case by simp
  next
    case (Cons p ps)
    then have "1 \<le> channels p ! 3" by (auto simp: channels_def alpha_def split: prod.splits)
    with Cons show ?case by simp
  qed
  moreover have "0 < int (length vs)" using assms(1) by simp
  ultimately show ?thesis
    by (simp add: channel_average_def pos_imp_zdiv_pos_iff)
qed

lemma alpha_channels: "uint (alpha p) = channels p ! 3"
  by (simp add: alpha_def channels_def split: prod.splits)

lemma combine_body_value:
  assumes "\<forall>r \<in> set results. x < width r \<and> y < height r"
  shows "combine_body results x y =
     Inr (let vs = voters (map (\<lambda>r. pixel_at r x y) results) in
          if 2 \<le> length vs
          then Some (final_pixel (int (length vs), (\<Sum>p\<leftarrow>vs. channels p ! 0),
                 (\<Sum>p\<leftarrow>vs. channels p ! 1), (\<Sum>p\<leftarrow>vs. channels p ! 2), (\<Sum>p\<leftarrow>vs. channels p ! 3)))
          else None)"
  by (simp add: combine_body_def count_vote_tally [OF assms] Let_def)

text \<open>
  Claim C2. For three results of the size of the original and every pixel position of
  the original, \<open>combine_results\<close> returns an image whose pixel there is
  non-transparent iff at least two of the three results have alpha above 0 there; then
  each of its four channels is the truncated integer average of that channel over the
  voting results, and otherwise the pixel is \<open>(0, 0, 0, 0)\<close>.
\<close>

theorem combine_results_consensus:
  assumes s1: "same_size r1 original" and s2: "same_size r2 original"
    and s3: "same_size r3 original"
    and x: "x < width original" and y: "y < height original"
  shows "\<exists>fin. combine_results [r1, r2, r3] original = Inr fin \<and> same_size fin original \<and>
     (let vs = voters [pixel_at r1 x y, pixel_at r2 x y, pixel_at r3 x y] in
        (0 < uint (alpha (pixel_at fin x y)) \<longleftrightarrow> 2 \<le> length vs) \<and>
        (if 2 \<le> length vs
         then channels (pixel_at fin x y) = map (channel_average vs) [0..<4]
         else pixel_at fin x y = (0, 0, 0, 0)))"
proof -
  let ?rs = "[r1, r2, r3]"
  let ?w = "width original" and ?h = "height original"
  have inb: "\<forall>r \<in> set ?rs. x' < width r \<and> y' < height r" if "x' < ?w" "y' < ?h" for x' y'
    using s1 s2 s3 that by (simp add: same_size_def)
  have "\<exists>fin. for_each_pixel (combine_body ?rs) ?w ?h (new_image ?w ?h transparent) = Inr fin"
  proof (rule for_each_pixel_total)
    fix x' y' assume "x' < ?w" "y' < ?h"
    from combine_body_value [OF inb [OF this]]
    show "\<exists>v. combine_body ?rs x' y' = Inr v" by simp
  qed
  then obtain fin where fin: "combine_results ?rs original = Inr fin"
    by (auto simp: combine_results_def)
  from for_each_pixel_size [OF fin [unfolded combine_results_def]]
  have size: "same_size fin original" by (simp add: same_size_def)
  define vs where "vs = voters [pixel_at r1 x y, pixel_at r2 x y, pixel_at r3 x y]"
  have body: "combine_body ?rs x y =
     Inr (if 2 \<le> length vs
          then Some (final_pixel (int (length vs), (\<Sum>p\<leftarrow>vs. channels p ! 0),
                 (\<Sum>p\<leftarrow>vs. channels p ! 1), (\<Sum>p\<leftarrow>vs. channels p ! 2), (\<Sum>p\<leftarrow>vs. channels p ! 3)))
          else None)"
    using combine_body_value [OF inb [OF x y]] by (simp add: vs_def Let_def)
  have px: "pixel_at fin x y =
     (if 2 \<le> length vs
      then final_pixel (int (length vs), (\<Sum>p\<leftarrow>vs. channels p ! 0),
             (\<Sum>p\<leftarrow>vs. channels p ! 1), (\<Sum>p\<leftarrow>vs. channels p ! 2), (\<Sum>p\<leftarrow>vs. channels p ! 3))
      else transparent)"
    using for_each_pixel_pixel [OF fin [unfolded combine_results_def] x y] body by simp
  have pos: "\<forall>p \<in> set vs. 0 < uint (alpha p)" by (simp add: vs_def voters_def)
  have "(0 < uint (alpha (pixel_at fin x y)) \<longleftrightarrow> 2 \<le> length vs) \<and>
        (if 2 \<le> length vs
         then channels (pixel_at fin x y) = map (channel_average vs) [0..<4]
         else pixel_at fin x y = (0, 0, 0, 0))"
  proof (cases "2 \<le> length vs")
    case True
    then have ne: "vs \<noteq> []" by auto
    have ch: "channels (pixel_at fin x y) = map (channel_average vs) [0..<4]"
      using px True channels_final_pixel [of vs] by simp
    have "uint (alpha (pixel_at fin x y)) = channel_average vs 3"
      by (simp add: alpha_channels ch)
    with alpha_average_positive [OF ne pos] ch True show ?thesis by simp
  next
    case False
    with px show ?thesis by (simp add: transparent_def alpha_def)
  qed
  with fin size show ?thesis by (simp add: vs_def Let_def)
qed

theorem combine_results_consensus_witness:
  "same_size (single ((10, 20, 30, 255) :: rgba)) (single transparent) \<and>
   same_size (single ((30, 40, 50, 255) :: rgba)) (single transparent) \<and>
   same_size (single ((0, 0, 0, 0) :: rgba)) (single transparent) \<and>
   0 < width (single transparent) \<and> 0 < height (single transparent) \<and>
   (\<exists>fin. combine_results [single (10, 20, 30, 255), single (30, 40, 50, 255), single (0, 0, 0, 0)]
            (single transparent) = Inr fin \<and>
          channels (pixel_at fin 0 0) = [20, 30, 40, 255])"
proof -
  have u: "[0..<4] = [0, 1, 2, 3::nat]" by (simp add: upt_rec)
  have h: "same_size (single ((10, 20, 30, 255) :: rgba)) (single transparent)"
    "same_size (single ((30, 40, 50, 255) :: rgba)) (single transparent)"
    "same_size (single ((0, 0, 0, 0) :: rgba)) (single transparent)"
    "0 < width (single transparent)" "0 < height (single transparent)"
    by (simp_all add: same_size_def single_def)
  from combine_results_consensus [OF h]
  show ?thesis
    using h
    by (auto simp: Let_def voters_def alpha_def pixel_at_def single_def channel_average_def
        channels_def u)
qed

section \<open>Properties of strategy 1\<close>

lemma unat_u8_le: "unat (w :: u8) \<le> 255"
  using unsigned_less [of w, where ?'a = nat] by simp

lemma sum_list_map2_bound:
  "length xs \<le> n \<Longrightarrow> sum_list (map unat (map2 f xs ys :: u8 list)) \<le> 255 * n"
proof (induction xs arbitrary: ys n)
  case Nil
  then show ?case by simp
next
  case (Cons x xs)
  show ?case
  proof (cases ys)
    case Nil
    then show ?thesis by simp
  next
    case (Cons y ys')
    from Cons.prems obtain n' where n: "n = Suc n'" and l: "length xs \<le> n'"
      by (cases n) auto
    from Cons.IH [OF l, of ys'] unat_u8_le [of "f x y"] Cons n show ?thesis by simp
  qed
qed

lemma sum_sq_u8_le: "sum_sq_u8 p c \<le> 765"
  using sum_list_map2_bound [of "take 3 p" 3 "\<lambda>a b. (a - b) ^ 2" "take 3 c"]
  by (simp add: sum_sq_u8_def)

lemma sqrt_2500: "sqrt 2500 = 50"
  using real_sqrt_abs [of 50] by simp

lemma color_diff_less_50: "color_diff p c < 50"
proof -
  have "real (sum_sq_u8 p c) < 2500" using sum_sq_u8_le [of p c] by simp
  then have "sqrt (real (sum_sq_u8 p c)) < sqrt 2500" by (simp only: real_sqrt_less_iff)
  then show ?thesis by (simp add: color_diff_def sqrt_2500)
qed

lemma grabcut_mask_all_foreground:
  assumes "0 < width (raster img)" "0 < height (raster img)" "bands (mode img) \<noteq> 1"
  shows "grabcut_mask img =
     Inr (tabulate (width (raster img)) (height (raster img)) (\<lambda>x y. 255))"
  using assms by (simp add: grabcut_mask_def Let_def getpixel_def color_diff_less_50)

lemma grabcut_mask_one_band:
  assumes "bands (mode img) = 1"
  shows "grabcut_mask img = Inl IndexError"
  using assms by (simp add: grabcut_mask_def Let_def getpixel_def)

lemma grabcut_simulation_pixel:
  assumes m: "grabcut_mask img = Inr m" and f: "MedianFilter lib m = Inr mask_img"
    and r: "grabcut_simulation lib img = Inr r"
    and x: "x < width (raster img)" and y: "y < height (raster img)"
  shows "pixel_at r x y =
     (if 128 < unat (pixel_at mask_img x y) then pixel_at (convert_RGBA img) x y
      else transparent)"
proof -
  from r m f have "composite 128 mask_img (convert_RGBA img) (width (raster img))
      (height (raster img)) = Inr r"
    by (simp add: grabcut_simulation_def)
  from composite_pixel [OF this x y] show ?thesis .
qed

text \<open>
  Claim C4 (the code departs from it). On the image \<open>two_pixel_column\<close> the pixel
  \<open>(0, 0)\<close> lies outside the central rectangle and its Euclidean distance to the
  centre colour is 100, yet the mask before the median filter marks it foreground:
  the byte arithmetic wraps and the distance the code computes is 4. By
  \<open>grabcut_mask_all_foreground\<close> the same holds for every pixel of every image with
  more than one band, since the wrapped sum of squares is at most 765.
\<close>

theorem grabcut_mask_wraps:
  "grabcut_mask two_pixel_column = Inr \<lparr>width = 1, height = 2, pixels = [255, 255]\<rparr> \<and>
   \<not> in_center_rect 1 2 0 0 \<and>
   euclidean_rgb (pixel_at (raster two_pixel_column) 0 0) (pixel_at (raster two_pixel_column) 0 1) = 100 \<and>
   color_diff (pixel_at (raster two_pixel_column) 0 0) (pixel_at (raster two_pixel_column) 0 1) = 4"
proof -
  have a: "grabcut_mask two_pixel_column = Inr \<lparr>width = 1, height = 2, pixels = [255, 255]\<rparr>"
    by (simp add: grabcut_mask_all_foreground two_pixel_column_def tabulate_def upt_rec)
  have b: "\<not> in_center_rect 1 2 0 0" by (simp add: in_center_rect_def)
  have s: "sqrt 10000 = 100" using real_sqrt_abs [of 100] by simp
  have c: "euclidean_rgb (pixel_at (raster two_pixel_column) 0 0)
             (pixel_at (raster two_pixel_column) 0 1) = 100"
    by (simp add: euclidean_rgb_def two_pixel_column_def pixel_at_def s)
  have s4: "sqrt 16 = 4" using real_sqrt_abs [of 4] by simp
  have d: "color_diff (pixel_at (raster two_pixel_column) 0 0)
             (pixel_at (raster two_pixel_column) 0 1) = 4"
    by (simp add: color_diff_def sum_sq_u8_def two_pixel_column_def pixel_at_def s4)
  from a b c d show ?thesis by simp
qed

section \<open>Sizes and small images\<close>

lemma border_width_small: "min w h < 20 \<Longrightarrow> border_width w h = 0"
  by (simp add: border_width_def)

lemma sample_coords_small: "min w h < 20 \<Longrightarrow> sample_coords w h = []"
  by (simp add: sample_coords_def border_width_small)

lemma convert_RGBA_size [simp]:
  "width (convert_RGBA img) = width (raster img)"
  "height (convert_RGBA img) = height (raster img)"
  by (simp_all add: convert_RGBA_def)

lemma convert_RGB_size [simp]:
  "width (convert_RGB img) = width (raster img)"
  "height (convert_RGB img) = height (raster img)"
  by (simp_all add: convert_RGB_def)

lemma sample_points_small:
  "min (width (raster img)) (height (raster img)) < 20 \<Longrightarrow> sample_points (convert_RGBA img) = Inr []"
  by (simp add: sample_points_def sample_coords_small)

lemma most_common_key_empty: "most_common_key (Counter []) = Inl IndexError"
  by (simp add: most_common_key_def Counter_def)

lemma smart_v2_body_small:
  "min (width (raster img)) (height (raster img)) < 20 \<Longrightarrow> smart_v2_body lib img = Inl IndexError"
  by (simp add: smart_v2_body_def Let_def sample_points_small most_common_key_empty)

lemma smart_v2_small:
  "min (width (raster img)) (height (raster img)) < 20 \<Longrightarrow>
     smart_background_removal_v2 lib img = Inr (convert_RGBA img)"
  by (simp add: smart_background_removal_v2_def smart_v2_body_small)

lemma convert_RGBA_opaque:
  "mode img = L \<or> mode img = RGB \<Longrightarrow> list_all (\<lambda>p. alpha p = 255) (pixels (convert_RGBA img))"
  by (auto simp: convert_RGBA_def list_all_iff alpha_def)

lemma remove_small_regions_size:
  "remove_small_regions lib img = Inr r \<Longrightarrow> width r = width img \<and> height r = height img \<and> wf_grid r"
  by (auto simp: remove_small_regions_def ebind_eq_Inr dest: composite_size)

lemma smart_v2_body_size:
  "smart_v2_body lib img = Inr r \<Longrightarrow> same_size r (raster img) \<and> wf_grid r"
  by (auto simp: smart_v2_body_def Let_def ebind_eq_Inr same_size_def dest!: remove_small_regions_size)

lemma convert_RGBA_wf: "wf_grid (raster img) \<Longrightarrow> wf_grid (convert_RGBA img)"
  by (simp add: wf_grid_def convert_RGBA_def)

lemma smart_v2_returns:
  "\<exists>r. smart_background_removal_v2 lib img = Inr r \<and> same_size r (raster img)"
proof (cases "smart_v2_body lib img")
  case (Inl e)
  then show ?thesis by (simp add: smart_background_removal_v2_def same_size_def)
next
  case (Inr r)
  with smart_v2_body_size [OF Inr] show ?thesis by (simp add: smart_background_removal_v2_def)
qed

lemma grabcut_simulation_size:
  "grabcut_simulation lib img = Inr r \<Longrightarrow> same_size r (raster img) \<and> wf_grid r"
  by (auto simp: grabcut_simulation_def ebind_eq_Inr same_size_def dest!: composite_size)

lemma color_clustering_removal_size:
  "color_clustering_removal lib img = Inr r \<Longrightarrow> same_size r (raster img) \<and> wf_grid r"
  by (auto simp: color_clustering_removal_def Let_def ebind_eq_Inr same_size_def
      split: if_splits dest!: composite_size)

lemma advanced_edge_segmentation_size:
  "advanced_edge_segmentation lib img = Inr r \<Longrightarrow> same_size r (raster img) \<and> wf_grid r"
  by (auto simp: advanced_edge_segmentation_def ebind_eq_Inr same_size_def dest!: composite_size)

lemma combine_results_size:
  "combine_results results original = Inr r \<Longrightarrow> same_size r original \<and> wf_grid r"
  using for_each_pixel_size [of "combine_body results" "width original" "height original" transparent r]
  by (simp add: combine_results_def same_size_def)

lemma combine_results_total:
  assumes "\<forall>r \<in> set results. same_size r original"
  shows "\<exists>fin. combine_results results original = Inr fin"
  unfolding combine_results_def
proof (rule for_each_pixel_total)
  fix x y assume "x < width original" "y < height original"
  with assms have "\<forall>r \<in> set results. x < width r \<and> y < height r"
    by (simp add: same_size_def)
  from combine_body_value [OF this] show "\<exists>v. combine_body results x y = Inr v" by simp
qed

lemma ensemble_body_size:
  "ensemble_body lib img = Inr r \<Longrightarrow> same_size r (raster img) \<and> wf_grid r"
  by (auto simp: ensemble_body_def Let_def ebind_eq_Inr same_size_def dest!: combine_results_size)

lemma advanced_background_removal_returns:
  "\<exists>r. advanced_background_removal lib img = Inr r \<and> same_size r (raster img)"
proof (cases "ensemble_body lib img")
  case (Inl e)
  with smart_v2_returns [of lib img] show ?thesis by (simp add: advanced_background_removal_def)
next
  case (Inr r)
  with ensemble_body_size [OF Inr] show ?thesis by (simp add: advanced_background_removal_def)
qed

section \<open>Strategies that return\<close>

lemma keeps_sizeD:
  "keeps_size f \<Longrightarrow> \<exists>g'. f g = Inr g' \<and> width g' = width g \<and> height g' = height g"
  by (auto simp: keeps_size_def same_size_def)

lemma grabcut_simulation_one_band:
  "bands (mode img) = 1 \<Longrightarrow> grabcut_simulation lib img = Inl IndexError"
  by (simp add: grabcut_simulation_def grabcut_mask_one_band)

lemma grabcut_simulation_total:
  assumes w: "0 < width (raster img)" and h: "0 < height (raster img)"
    and b: "bands (mode img) \<noteq> 1" and m: "keeps_size (MedianFilter lib)"
  shows "\<exists>r. grabcut_simulation lib img = Inr r"
proof -
  let ?m = "tabulate (width (raster img)) (height (raster img)) (\<lambda>x y. 255 :: u8)"
  from keeps_sizeD [OF m, of ?m] obtain g where g: "MedianFilter lib ?m = Inr g"
    and gw: "width g = width (raster img)" and gh: "height g = height (raster img)" by auto
  from composite_total [of "width (raster img)" g "height (raster img)" "convert_RGBA img" 128]
  obtain r where "composite 128 g (convert_RGBA img) (width (raster img)) (height (raster img)) = Inr r"
    using gw gh by auto
  with g show ?thesis
    by (simp add: grabcut_simulation_def grabcut_mask_all_foreground [OF w h b])
qed

lemma color_clustering_removal_total:
  assumes w: "0 < width (raster img)" and h: "0 < height (raster img)"
    and m: "keeps_size (GaussianBlur lib)"
  shows "\<exists>r. color_clustering_removal lib img = Inr r"
proof -
  let ?m = "clustering_mask lib (convert_RGB img)"
  have s: "width ?m = width (raster img)" "height ?m = height (raster img)"
    by (simp_all add: clustering_mask_def Let_def)
  from keeps_sizeD [OF m, of ?m] s obtain g where g: "GaussianBlur lib ?m = Inr g"
    and gw: "width g = width (raster img)" and gh: "height g = height (raster img)" by auto
  from composite_total [of "width (raster img)" g "height (raster img)" "convert_RGBA img" 100]
  obtain r where "composite 100 g (convert_RGBA img) (width (raster img)) (height (raster img)) = Inr r"
    using gw gh by auto
  with g w h show ?thesis
    by (simp add: color_clustering_removal_def Let_def)
qed

lemma create_distance_mask_size [simp]:
  "width (create_distance_mask e) = width e" "height (create_distance_mask e) = height e"
  by (simp_all add: create_distance_mask_def)

lemma advanced_edge_segmentation_total:
  assumes ok: "pil_ok lib"
  shows "\<exists>r. advanced_edge_segmentation lib img = Inr r"
proof -
  let ?w = "width (raster img)" and ?h = "height (raster img)"
  from ok have "\<exists>g. convert_L lib img = Inr g \<and> same_size g (raster img)"
    by (simp add: pil_ok_def)
  then obtain gray where gray: "convert_L lib img = Inr gray"
    and grs: "width gray = ?w" "height gray = ?h"
    by (auto simp: same_size_def)
  from ok have k1: "keeps_size (FIND_EDGES lib)" and k2: "keeps_size (Contrast_enhance lib)"
    and k3: "keeps_size (EDGE_ENHANCE_MORE lib)" by (simp_all add: pil_ok_def)
  from keeps_sizeD [OF k1, of gray] grs obtain e1 where e1: "FIND_EDGES lib gray = Inr e1"
    and e1s: "width e1 = ?w" "height e1 = ?h" by auto
  from keeps_sizeD [OF k2, of gray] grs obtain en where en: "Contrast_enhance lib gray = Inr en"
    and ens: "width en = ?w" "height en = ?h" by auto
  from keeps_sizeD [OF k3, of en] ens obtain e2 where e2: "EDGE_ENHANCE_MORE lib en = Inr e2"
    and e2s: "width e2 = ?w" "height e2 = ?h" by auto
  from e1s e2s have "same_size e1 e2" by (simp add: same_size_def)
  with ok have "\<exists>g. blend lib e1 e2 = Inr g \<and> same_size g e1"
    by (simp add: pil_ok_def)
  then obtain ec where ec: "blend lib e1 e2 = Inr ec" and "same_size ec e1"
    by blast
  with e1s have ecs: "width ec = ?w" "height ec = ?h" by (simp_all add: same_size_def)
  from composite_total [of ?w "create_distance_mask ec" ?h "convert_RGBA img" 128] ecs
  obtain r where "composite 128 (create_distance_mask ec) (convert_RGBA img) ?w ?h = Inr r"
    by auto
  with gray e1 en e2 ec show ?thesis by (simp add: advanced_edge_segmentation_def)
qed

lemma pil_ok_stub: "pil_ok stub_pil"
  by (simp add: pil_ok_def stub_pil_def keeps_size_def same_size_def first_band_def)

text \<open>
  On a one-band image strategy 1 raises, so the ensemble is abandoned and the
  selector \<^verbatim>\<open>smart\<close> gives the result of strategy 4.
\<close>

lemma one_band_ensemble_falls_back:
  assumes "bands (mode img) = 1"
  shows "advanced_background_removal lib img = smart_background_removal_v2 lib img"
  using assms
  by (simp add: advanced_background_removal_def ensemble_body_def Let_def
      grabcut_simulation_one_band)

lemma ensemble_body_combines:
  assumes "grabcut_simulation lib img = Inr r1" "color_clustering_removal lib img = Inr r2"
    "advanced_edge_segmentation lib img = Inr r3"
  shows "\<exists>fin. combine_results [r1, r2, r3] (convert_RGBA img) = Inr fin \<and>
           ensemble_body lib img = Inr fin \<and> advanced_background_removal lib img = Inr fin"
proof -
  from grabcut_simulation_size [OF assms(1)] color_clustering_removal_size [OF assms(2)]
    advanced_edge_segmentation_size [OF assms(3)]
  have "\<forall>r \<in> set [r1, r2, r3]. same_size r (convert_RGBA img)"
    by (simp add: same_size_def)
  from combine_results_total [OF this] obtain fin
    where "combine_results [r1, r2, r3] (convert_RGBA img) = Inr fin" by blast
  with assms show ?thesis
    by (simp add: ensemble_body_def Let_def advanced_background_removal_def)
qed

section \<open>The entry points\<close>

lemma process_white: "process lib (Some ''white'') img = smart_background_removal_v2 lib img"
  by (simp add: process_def selected_method_def remove_white_background_def)

lemma process_edge: "process lib (Some ''edge'') img = advanced_edge_segmentation lib img"
  by (simp add: process_def selected_method_def edge_based_removal_def)

lemma process_color: "process lib (Some ''color'') img = color_clustering_removal lib img"
  by (simp add: process_def selected_method_def color_threshold_removal_def)

lemma process_default:
  assumes "m = None \<or> (\<exists>s. m = Some s \<and> s \<noteq> ''white'' \<and> s \<noteq> ''edge'' \<and> s \<noteq> ''color'')"
  shows "process lib m img = advanced_background_removal lib img"
  using assms
  by (auto simp: process_def selected_method_def smart_background_removal_def Let_def)

lemma process_returns:
  assumes "wf_image img" "pil_ok lib"
  shows "\<exists>r. process lib m img = Inr r"
proof -
  from assms(1) have w: "0 < width (raster img)" and h: "0 < height (raster img)"
    by (simp_all add: wf_image_def)
  from assms(2) have g: "keeps_size (GaussianBlur lib)" by (simp add: pil_ok_def)
  consider "m = Some ''white''" | "m = Some ''edge''" | "m = Some ''color''"
    | "m = None \<or> (\<exists>s. m = Some s \<and> s \<noteq> ''white'' \<and> s \<noteq> ''edge'' \<and> s \<noteq> ''color'')"
    by (cases m) auto
  then show ?thesis
  proof cases
    case 1
    with smart_v2_returns [of lib img] show ?thesis by (auto simp: process_white)
  next
    case 2
    with advanced_edge_segmentation_total [OF assms(2), of img] show ?thesis
      by (simp add: process_edge)
  next
    case 3
    with color_clustering_removal_total [OF w h g] show ?thesis by (simp add: process_color)
  next
    case 4
    from process_default [OF 4, of lib img] advanced_background_removal_returns [of lib img]
    show ?thesis by auto
  qed
qed

text \<open>
  Claim C7. For every well-formed image, and a library whose filters keep the size,
  the output of each strategy and of the ensemble has the width and height of the
  input. Strategy 1 returns on every image with more than one band (on a one-band
  image it raises, and whatever it returns has the size of the input); strategies 2,
  3 and 4 and the ensemble return on every image.
\<close>

theorem strategy_output_size:
  assumes wf: "wf_image img" and ok: "pil_ok lib"
  shows "(\<forall>r. grabcut_simulation lib img = Inr r \<longrightarrow> same_size r (raster img)) \<and>
     (bands (mode img) \<noteq> 1 \<longrightarrow> (\<exists>r. grabcut_simulation lib img = Inr r)) \<and>
     (\<exists>r. color_clustering_removal lib img = Inr r \<and> same_size r (raster img)) \<and>
     (\<exists>r. advanced_edge_segmentation lib img = Inr r \<and> same_size r (raster img)) \<and>
     (\<exists>r. smart_background_removal_v2 lib img = Inr r \<and> same_size r (raster img)) \<and>
     (\<exists>r. advanced_background_removal lib img = Inr r \<and> same_size r (raster img))"
proof -
  from wf have w: "0 < width (raster img)" and h: "0 < height (raster img)"
    by (simp_all add: wf_image_def)
  from ok have me: "keeps_size (MedianFilter lib)" and ga: "keeps_size (GaussianBlur lib)"
    by (simp_all add: pil_ok_def)
  have 1: "\<forall>r. grabcut_simulation lib img = Inr r \<longrightarrow> same_size r (raster img)"
    using grabcut_simulation_size by blast
  have 2: "bands (mode img) \<noteq> 1 \<longrightarrow> (\<exists>r. grabcut_simulation lib img = Inr r)"
    using grabcut_simulation_total [OF w h _ me] by blast
  have 3: "\<exists>r. color_clustering_removal lib img = Inr r \<and> same_size r (raster img)"
    using color_clustering_removal_total [OF w h ga] color_clustering_removal_size by blast
  have 4: "\<exists>r. advanced_edge_segmentation lib img = Inr r \<and> same_size r (raster img)"
    using advanced_edge_segmentation_total [OF ok] advanced_edge_segmentation_size by blast
  from 1 2 3 4 smart_v2_returns [of lib img] advanced_background_removal_returns [of lib img]
  show ?thesis by blast
qed

lemma wf_single_image: "length p = bands m \<Longrightarrow> wf_image (single_image m p)"
  by (simp add: wf_image_def single_image_def single_def wf_grid_def)

theorem strategy_output_size_witness:
  "wf_image (single_image RGB [10, 20, 30]) \<and> pil_ok stub_pil \<and>
   (\<exists>r. grabcut_simulation stub_pil (single_image RGB [10, 20, 30]) = Inr r \<and>
        same_size r (raster (single_image RGB [10, 20, 30]))) \<and>
   (\<exists>r. color_clustering_removal stub_pil (single_image RGB [10, 20, 30]) = Inr r \<and>
        same_size r (raster (single_image RGB [10, 20, 30]))) \<and>
   (\<exists>r. advanced_edge_segmentation stub_pil (single_image RGB [10, 20, 30]) = Inr r \<and>
        same_size r (raster (single_image RGB [10, 20, 30]))) \<and>
   (\<exists>r. smart_background_removal_v2 stub_pil (single_image RGB [10, 20, 30]) = Inr r \<and>
        same_size r (raster (single_image RGB [10, 20, 30]))) \<and>
   (\<exists>r. advanced_background_removal stub_pil (single_image RGB [10, 20, 30]) = Inr r \<and>
        same_size r (raster (single_image RGB [10, 20, 30])))"
proof -
  have wf: "wf_image (single_image RGB [10, 20, 30])" by (simp add: wf_single_image)
  have b: "bands (mode (single_image RGB [10, 20, 30])) \<noteq> 1" by (simp add: single_image_def)
  from strategy_output_size [OF wf pil_ok_stub] b wf pil_ok_stub show ?thesis by blast
qed

text \<open>
  On a well-formed image of one pixel, with a library whose filters keep the size:
  strategies 2 and 3 return; strategy 1 returns on an image with more than one band
  and raises \<^verbatim>\<open>IndexError\<close> on a one-band image, inside the ensemble, which catches
  it; the sampling loops of strategy 4 read no pixel at all, the look-up of the most
  common colour raises inside the \<^verbatim>\<open>try\<close> block and the handler returns the
  converted original; every entry point, under every selector, returns an image.
\<close>

lemma one_pixel_image_completes:
  assumes wf: "wf_image img" and w1: "width (raster img) = 1" and h1: "height (raster img) = 1"
    and ok: "pil_ok lib"
  shows "(if bands (mode img) = 1 then grabcut_simulation lib img = Inl IndexError
          else (\<exists>r. grabcut_simulation lib img = Inr r)) \<and>
     (\<exists>r. color_clustering_removal lib img = Inr r) \<and>
     (\<exists>r. advanced_edge_segmentation lib img = Inr r) \<and>
     sample_points (convert_RGBA img) = Inr [] \<and>
     smart_v2_body lib img = Inl IndexError \<and>
     smart_background_removal_v2 lib img = Inr (convert_RGBA img) \<and>
     (\<exists>r. advanced_background_removal lib img = Inr r) \<and>
     (\<forall>m. \<exists>r. process lib m img = Inr r)"
proof -
  from w1 h1 have w: "0 < width (raster img)" and h: "0 < height (raster img)"
    and small: "min (width (raster img)) (height (raster img)) < 20" by simp_all
  from ok have me: "keeps_size (MedianFilter lib)" and ga: "keeps_size (GaussianBlur lib)"
    by (simp_all add: pil_ok_def)
  have 1: "if bands (mode img) = 1 then grabcut_simulation lib img = Inl IndexError
          else (\<exists>r. grabcut_simulation lib img = Inr r)"
    using grabcut_simulation_one_band [of img lib] grabcut_simulation_total [OF w h _ me]
    by auto
  have 2: "\<exists>r. advanced_background_removal lib img = Inr r"
    using advanced_background_removal_returns [of lib img] by blast
  from 1 2 color_clustering_removal_total [OF w h ga] advanced_edge_segmentation_total [OF ok, of img]
    sample_points_small [OF small] smart_v2_body_small [OF small, of lib]
    smart_v2_small [OF small, of lib] process_returns [OF wf ok]
  show ?thesis by simp
qed

text \<open>
  Claim C6 (the code departs from it). On the one-pixel image with the pixel
  \<open>(10, 20, 30)\<close> the width of the border strip is 0: it is not clamped to the image
  as the stride is. No sample is read, the look-up of the most common colour indexes
  an empty list and raises \<^verbatim>\<open>IndexError\<close>, and strategy 4 does not complete its
  pass: its handler returns the converted original with nothing removed.
\<close>

theorem one_pixel_image_strategy4_raises:
  "border_width 1 1 = 0 \<and>
   sample_points (convert_RGBA (single_image RGB [10, 20, 30])) = Inr [] \<and>
   most_common_key (Counter ([] :: rgba list)) = Inl IndexError \<and>
   smart_v2_body stub_pil (single_image RGB [10, 20, 30]) = Inl IndexError \<and>
   smart_background_removal_v2 stub_pil (single_image RGB [10, 20, 30]) =
     Inr (single (10, 20, 30, 255))"
proof -
  have m: "min (width (raster (single_image RGB [10, 20, 30])))
       (height (raster (single_image RGB [10, 20, 30]))) < 20"
    by (simp add: single_image_def single_def)
  have c: "convert_RGBA (single_image RGB [10, 20, 30]) = single (10, 20, 30, 255)"
    by (simp add: convert_RGBA_def single_image_def single_def)
  from sample_points_small [OF m] smart_v2_body_small [OF m, of stub_pil]
    smart_v2_small [OF m, of stub_pil] c most_common_key_empty [where ?'a = rgba]
  show ?thesis by (simp add: border_width_def)
qed

text \<open>
  The selector \<^verbatim>\<open>white\<close> calls strategy 4, \<^verbatim>\<open>edge\<close> strategy 3 and
  \<^verbatim>\<open>color\<close> strategy 2. An absent selector, \<^verbatim>\<open>smart\<close> and every other string call
  the ensemble: the call returns an image, never an error, and when strategies 1, 2
  and 3 return it is \<open>combine_results\<close> of their three results and the converted
  original; strategy 4 is no argument of the combination.
\<close>

lemma method_dispatch:
  "process lib (Some ''white'') img = smart_background_removal_v2 lib img \<and>
   process lib (Some ''edge'') img = advanced_edge_segmentation lib img \<and>
   process lib (Some ''color'') img = color_clustering_removal lib img \<and>
   (m = None \<or> (\<exists>s. m = Some s \<and> s \<noteq> ''white'' \<and> s \<noteq> ''edge'' \<and> s \<noteq> ''color'') \<longrightarrow>
      process lib m img = advanced_background_removal lib img \<and>
      (\<exists>r. process lib m img = Inr r) \<and>
      (\<forall>r1 r2 r3. grabcut_simulation lib img = Inr r1 \<and>
         color_clustering_removal lib img = Inr r2 \<and>
         advanced_edge_segmentation lib img = Inr r3 \<longrightarrow>
         process lib m img = combine_results [r1, r2, r3] (convert_RGBA img)))"
proof -
  have "process lib m img = advanced_background_removal lib img \<and>
      (\<exists>r. process lib m img = Inr r) \<and>
      (\<forall>r1 r2 r3. grabcut_simulation lib img = Inr r1 \<and>
         color_clustering_removal lib img = Inr r2 \<and>
         advanced_edge_segmentation lib img = Inr r3 \<longrightarrow>
         process lib m img = combine_results [r1, r2, r3] (convert_RGBA img))"
    if d: "m = None \<or> (\<exists>s. m = Some s \<and> s \<noteq> ''white'' \<and> s \<noteq> ''edge'' \<and> s \<noteq> ''color'')"
  proof -
    note p = process_default [OF d, of lib img]
    have "process lib m img = combine_results [r1, r2, r3] (convert_RGBA img)"
      if "grabcut_simulation lib img = Inr r1" "color_clustering_removal lib img = Inr r2"
        "advanced_edge_segmentation lib img = Inr r3" for r1 r2 r3
      using ensemble_body_combines [OF that] p by auto
    with p advanced_background_removal_returns [of lib img] show ?thesis by auto
  qed
  with process_white [of lib img] process_edge [of lib img] process_color [of lib img]
  show ?thesis by blast
qed

text \<open>
  Claim C3 (the code departs from it). On a one-band image the selector
  \<^verbatim>\<open>smart\<close> does not run strategies 1, 2 and 3 followed by the combiner: strategy 1
  indexes the array of the image without converting it to RGB first, as strategy 2
  does, and raises \<^verbatim>\<open>IndexError\<close> at the first pixel; the ensemble is abandoned,
  strategies 2 and 3 and the combiner never run, and the result is that of strategy 4
  alone. By \<open>one_band_ensemble_falls_back\<close> this is so on every one-band image.
\<close>

theorem smart_on_one_band_image:
  "grabcut_simulation stub_pil (single_image L [7]) = Inl IndexError \<and>
   ensemble_body stub_pil (single_image L [7]) = Inl IndexError \<and>
   process stub_pil (Some ''smart'') (single_image L [7]) =
     smart_background_removal_v2 stub_pil (single_image L [7]) \<and>
   process stub_pil None (single_image L [7]) =
     smart_background_removal_v2 stub_pil (single_image L [7])"
proof -
  have b: "bands (mode (single_image L [7])) = 1" by (simp add: single_image_def)
  have g: "grabcut_simulation stub_pil (single_image L [7]) = Inl IndexError"
    by (rule grabcut_simulation_one_band [OF b])
  have e: "ensemble_body stub_pil (single_image L [7]) = Inl IndexError"
    by (simp add: ensemble_body_def Let_def g)
  have "process stub_pil m (single_image L [7]) =
      smart_background_removal_v2 stub_pil (single_image L [7])"
    if "m = None \<or> m = Some ''smart''" for m
    using that one_band_ensemble_falls_back [OF b, of stub_pil]
    by (auto simp: process_def selected_method_def smart_background_removal_def Let_def)
  with g e show ?thesis by simp
qed

text \<open>
  The handlers, for any behaviour of the library. For an absent selector,
  \<^verbatim>\<open>smart\<close> and every unrecognised selector the call returns the ensemble's result,
  or on its failure the result of strategy 4, or on its failure the original converted
  to RGBA. For \<^verbatim>\<open>white\<close> it returns the result of strategy 4 or, on its failure,
  the converted original. The wrappers for \<^verbatim>\<open>edge\<close> and \<^verbatim>\<open>color\<close> have no
  handler of their own.
\<close>

lemma fallback_chain:
  "(m = None \<or> (\<exists>s. m = Some s \<and> s \<noteq> ''white'' \<and> s \<noteq> ''edge'' \<and> s \<noteq> ''color'') \<longrightarrow>
      process lib m img =
        Inr (case ensemble_body lib img of
               Inr r \<Rightarrow> r
             | Inl e \<Rightarrow> (case smart_v2_body lib img of
                           Inr r \<Rightarrow> r
                         | Inl e' \<Rightarrow> convert_RGBA img))) \<and>
   process lib (Some ''white'') img =
     Inr (case smart_v2_body lib img of Inr r \<Rightarrow> r | Inl e \<Rightarrow> convert_RGBA img) \<and>
   (\<forall>e. advanced_edge_segmentation lib img = Inl e \<longrightarrow>
      process lib (Some ''edge'') img = Inl e \<and>
      home lib (Some ''edge'') img = Home_with_error e) \<and>
   (\<forall>e. color_clustering_removal lib img = Inl e \<longrightarrow>
      process lib (Some ''color'') img = Inl e \<and>
      home lib (Some ''color'') img = Home_with_error e)"
proof -
  have v2: "smart_background_removal_v2 lib img =
     Inr (case smart_v2_body lib img of Inr r \<Rightarrow> r | Inl e \<Rightarrow> convert_RGBA img)"
    by (simp add: smart_background_removal_v2_def split: sum.splits)
  have "process lib m img =
        Inr (case ensemble_body lib img of
               Inr r \<Rightarrow> r
             | Inl e \<Rightarrow> (case smart_v2_body lib img of
                           Inr r \<Rightarrow> r
                         | Inl e' \<Rightarrow> convert_RGBA img))"
    if d: "m = None \<or> (\<exists>s. m = Some s \<and> s \<noteq> ''white'' \<and> s \<noteq> ''edge'' \<and> s \<noteq> ''color'')"
    using process_default [OF d, of lib img] v2
    by (simp add: advanced_background_removal_def split: sum.splits)
  with v2 show ?thesis by (simp add: process_white process_edge process_color home_def)
qed



section \<open>Properties of strategy 4\<close>

lemma float_okD:
  assumes "float_ok lib" "0 \<le> x" "0 \<le> y"
  shows "0 \<le> float_pow lib x y" "0 \<le> float_div lib x y" "0 \<le> float_mul lib x y"
    "x \<le> float_add lib x y"
  using assms unfolding float_ok_def by blast+

lemma tolerance_ge_30:
  assumes ok: "float_ok lib"
  shows "30 \<le> tolerance lib w h i"
proof -
  let ?cd = "float_pow lib (real_of_int ((int (i mod w) - int (w div 2)) ^ 2 +
      (int (i div w) - int (h div 2)) ^ 2)) (1 / 2)"
  let ?md = "float_pow lib (float_add lib (float_pow lib (float_div lib (real w) 2) 2)
      (float_pow lib (float_div lib (real h) 2) 2)) (1 / 2)"
  have cd: "0 \<le> ?cd" by (rule float_okD(1) [OF ok]) simp_all
  have "0 \<le> float_div lib (real w) 2" by (rule float_okD(2) [OF ok]) simp_all
  then have a: "0 \<le> float_pow lib (float_div lib (real w) 2) 2"
    by (rule float_okD(1) [OF ok]) simp
  have "0 \<le> float_div lib (real h) 2" by (rule float_okD(2) [OF ok]) simp_all
  then have b: "0 \<le> float_pow lib (float_div lib (real h) 2) 2"
    by (rule float_okD(1) [OF ok]) simp
  from float_okD(4) [OF ok a b] a
  have "0 \<le> float_add lib (float_pow lib (float_div lib (real w) 2) 2)
      (float_pow lib (float_div lib (real h) 2) 2)" by linarith
  then have md: "0 \<le> ?md" by (rule float_okD(1) [OF ok]) simp
  from float_okD(2) [OF ok cd md] have "0 \<le> float_div lib ?cd ?md" .
  then have "0 \<le> float_mul lib (float_div lib ?cd ?md) 40"
    by (rule float_okD(3) [OF ok]) simp
  from float_okD(4) [OF ok _ this, of 30] show ?thesis
    by (simp add: tolerance_def Let_def)
qed

lemma rgb_distance_self: "float_ok lib \<Longrightarrow> rgb_distance lib p p = 0"
  by (simp add: rgb_distance_def float_ok_def split: prod.splits)

lemma classified_background_self:
  "float_ok lib \<Longrightarrow> classified_background lib w h p i p"
  using tolerance_ge_30 [of lib w h i]
  by (simp add: classified_background_def rgb_distance_self)

lemma length_new_data [simp]: "length (new_data lib img bg) = length (pixels img)"
  by (simp add: new_data_def)

lemma new_data_nth:
  assumes "i < length (pixels img)"
  shows "new_data lib img bg_color ! i =
     (if classified_background lib (width img) (height img) bg_color i (pixels img ! i)
      then (255, 255, 255, 0) else pixels img ! i)"
  using assms by (simp add: new_data_def nth_enumerate_eq classify_def)

text \<open>
  The image that strategy 4 returns from its \<^verbatim>\<open>try\<close> block takes each pixel from
  \<^verbatim>\<open>new_data\<close> where the filtered occupancy mask is above 128 and is transparent
  elsewhere.
\<close>

lemma smart_v2_body_pixel:
  assumes r: "smart_v2_body lib img = Inr r"
    and x: "x < width (raster img)" and y: "y < height (raster img)"
  shows "\<exists>bg_color (mask_img :: u8 grid).
     pixel_at r x y =
       (if 128 < unat (pixel_at mask_img x y)
        then new_data lib (convert_RGBA img) bg_color ! (y * width (raster img) + x)
        else transparent)"
proof -
  let ?i = "convert_RGBA img"
  from r obtain pts bg where "sample_points ?i = Inr pts"
    and "most_common_key (Counter pts) = Inr bg"
    and rs: "remove_small_regions lib (?i\<lparr>pixels := new_data lib ?i bg\<rparr>) = Inr r"
    by (auto simp: smart_v2_body_def Let_def ebind_eq_Inr)
  let ?img' = "?i\<lparr>pixels := new_data lib ?i bg\<rparr>"
  from rs obtain m where c: "composite 128 m ?img' (width ?img') (height ?img') = Inr r"
    by (auto simp: remove_small_regions_def ebind_eq_Inr)
  from x y have x': "x < width ?img'" and y': "y < height ?img'" by simp_all
  have "pixel_at ?img' x y = new_data lib ?i bg ! (y * width (raster img) + x)"
    by (simp add: pixel_at_def)
  with composite_pixel [OF c x' y']
  have "pixel_at r x y =
       (if 128 < unat (pixel_at m x y)
        then new_data lib (convert_RGBA img) bg ! (y * width (raster img) + x)
        else transparent)" by simp
  then show ?thesis by blast
qed

text \<open>
  The claim C10 as stated fails in its last part: the image returned for a small
  image is not always fully opaque. A one-pixel RGBA image whose pixel has alpha 0 is
  returned with alpha 0.
\<close>

theorem small_rgba_image_keeps_alpha:
  "min (width (raster (single_image RGBA [10, 20, 30, 0])))
       (height (raster (single_image RGBA [10, 20, 30, 0]))) < 20 \<and>
   smart_background_removal_v2 stub_pil (single_image RGBA [10, 20, 30, 0]) =
     Inr (single (10, 20, 30, 0)) \<and>
   alpha (pixel_at (single ((10, 20, 30, 0) :: rgba)) 0 0) \<noteq> 255"
proof -
  have m: "min (width (raster (single_image RGBA [10, 20, 30, 0])))
       (height (raster (single_image RGBA [10, 20, 30, 0]))) < 20"
    by (simp add: single_image_def single_def)
  from smart_v2_small [OF m, of stub_pil] m show ?thesis
    by (simp add: convert_RGBA_def single_image_def single_def pixel_at_def alpha_def)
qed

text \<open>
  Claim C10, amended. For every image whose smaller dimension is below 20 the border
  width is 0, no sample is collected, the look-up of the most common colour raises
  \<^verbatim>\<open>IndexError\<close>, and strategy 4 returns the original converted to RGBA with no
  background removed: fully opaque when the image has no alpha band (modes \<open>L\<close>
  and \<open>RGB\<close>), with the alpha of the source otherwise.
\<close>

theorem small_image_returned_unchanged:
  assumes "min (width (raster img)) (height (raster img)) < 20"
  shows "border_width (width (raster img)) (height (raster img)) = 0 \<and>
     sample_points (convert_RGBA img) = Inr [] \<and>
     most_common_key (Counter ([] :: rgba list)) = Inl IndexError \<and>
     smart_v2_body lib img = Inl IndexError \<and>
     smart_background_removal_v2 lib img = Inr (convert_RGBA img) \<and>
     (mode img = L \<or> mode img = RGB \<longrightarrow>
        list_all (\<lambda>p. alpha p = 255) (pixels (convert_RGBA img)))"
  using border_width_small [OF assms] sample_points_small [OF assms]
    smart_v2_body_small [OF assms, of lib] smart_v2_small [OF assms, of lib]
    convert_RGBA_opaque [of img] most_common_key_empty [where ?'a = rgba]
  by simp

theorem small_image_returned_unchanged_witness:
  "min (width (raster (uniform_image 2 2 [10, 20, 30])))
       (height (raster (uniform_image 2 2 [10, 20, 30]))) < 20 \<and>
   smart_v2_body stub_pil (uniform_image 2 2 [10, 20, 30]) = Inl IndexError \<and>
   smart_background_removal_v2 stub_pil (uniform_image 2 2 [10, 20, 30]) =
     Inr (convert_RGBA (uniform_image 2 2 [10, 20, 30])) \<and>
   list_all (\<lambda>p. alpha p = 255) (pixels (convert_RGBA (uniform_image 2 2 [10, 20, 30])))"
proof -
  have m: "min (width (raster (uniform_image 2 2 [10, 20, 30])))
       (height (raster (uniform_image 2 2 [10, 20, 30]))) < 20"
    by (simp add: uniform_image_def)
  have r: "mode (uniform_image 2 2 [10, 20, 30]) = RGB" by (simp add: uniform_image_def)
  from small_image_returned_unchanged [OF m, of stub_pil] m r show ?thesis by simp
qed

section \<open>Uniform images\<close>

lemma pixel_at_mem:
  assumes "wf_grid g" "x < width g" "y < height g"
  shows "pixel_at g x y \<in> set (pixels g)"
  using index_bound [OF assms(2,3)] assms(1) by (simp add: pixel_at_def wf_grid_def)

lemma list_all_pixels:
  assumes wf: "wf_grid g" and p: "\<And>x y. x < width g \<Longrightarrow> y < height g \<Longrightarrow> P (pixel_at g x y)"
  shows "list_all P (pixels g)"
proof -
  have "P (pixels g ! i)" if i: "i < length (pixels g)" for i
  proof -
    from i wf have l: "i < width g * height g" by (simp add: wf_grid_def)
    then have w: "0 < width g" by (cases "width g") simp_all
    from l w have "i div width g < height g"
      by (simp add: less_mult_imp_div_less mult.commute)
    with p [of "i mod width g" "i div width g"] w show ?thesis
      by (simp add: pixel_at_def)
  qed
  then show ?thesis by (simp add: list_all_length)
qed

lemma pixel_at_blank:
  "blank g \<Longrightarrow> wf_grid g \<Longrightarrow> x < width g \<Longrightarrow> y < height g \<Longrightarrow> pixel_at g x y = 0"
  using pixel_at_mem [of g x y] by (auto simp: blank_def list_all_iff)

lemma blank_tabulate: "blank (tabulate w h (\<lambda>x y. 0))"
  by (simp add: blank_def tabulate_def list_all_iff)

lemma composite_fully_transparent:
  assumes r: "composite t m src w h = Inr r" and b: "blank m" and wf: "wf_grid m"
  shows "fully_transparent r"
  unfolding fully_transparent_def
proof (rule list_all_pixels)
  from composite_size [OF r] show "wf_grid r" by simp
next
  fix x y assume "x < width r" "y < height r"
  with composite_size [OF r] have x: "x < w" and y: "y < h" by simp_all
  from for_each_pixel_body [OF r [unfolded composite_def] x y]
  have "x < width m \<and> y < height m"
    by (auto simp: composite_body_def getpixel_def ebind_eq_Inr split: if_splits)
  with pixel_at_blank [OF b wf, of x y] have "pixel_at m x y = 0" by simp
  with composite_pixel [OF r x y] show "alpha (pixel_at r x y) = 0"
    by (simp add: transparent_def alpha_def)
qed

lemma mean_color_uniform:
  assumes ok: "float_ok lib" and ne: "ps \<noteq> []" and u: "\<forall>p \<in> set ps. p = c" and i: "i < 3"
  shows "mean_color lib ps ! i = real (unat (c ! i))"
proof -
  have "map (\<lambda>p. real (unat (p ! i))) ps = map (\<lambda>p. real (unat (c ! i))) ps"
    using u by (intro map_cong) auto
  then have m: "map (\<lambda>p. real (unat (p ! i))) ps = replicate (length ps) (real (unat (c ! i)))"
    by (simp add: map_replicate_const)
  from ne have "0 < length ps" by simp
  with ok unat_u8_le [of "c ! i"]
  have "np_mean lib (replicate (length ps) (real (unat (c ! i)))) = real (unat (c ! i))"
    unfolding float_ok_def by blast
  with m i show ?thesis by (simp add: mean_color_def)
qed

lemma color_distance_uniform:
  assumes ok: "float_ok lib" and ne: "ps \<noteq> []" and u: "\<forall>p \<in> set ps. p = c"
  shows "color_distance lib c (mean_color lib ps) = 0"
proof -
  have z: "float_sub lib x x = 0" for x using ok unfolding float_ok_def by blast
  have "map (\<lambda>i. np_square lib (float_sub lib (real (unat (c ! i))) (mean_color lib ps ! i))) [0..<3] =
      map (\<lambda>i. np_square lib 0) [0..<3]"
    using mean_color_uniform [OF ok ne u] by (intro map_cong) (auto simp: z)
  also have "\<dots> = [np_square lib 0, np_square lib 0, np_square lib 0]"
    by (simp add: upt_rec)
  finally show ?thesis using ok by (simp add: color_distance_def float_ok_def)
qed

lemma threshold_ge_60: "float_ok lib \<Longrightarrow> 60 \<le> threshold lib w h x y"
proof -
  assume ok: "float_ok lib"
  have "0 \<le> float_mul lib (real (edge_distance w h x y)) (1 / 2)"
    by (rule float_okD(3) [OF ok]) simp_all
  from float_okD(4) [OF ok _ this, of 60] show ?thesis by (simp add: threshold_def)
qed

lemma edge_pixels_uniform:
  assumes wf: "wf_grid a" and w: "0 < width a" and h: "0 < height a"
    and u: "\<forall>p \<in> set (pixels a). p = c"
  shows "edge_pixels a \<noteq> [] \<and> (\<forall>p \<in> set (edge_pixels a). p = c)"
proof -
  have m: "pixel_at a x y = c" if "x < width a" "y < height a" for x y
    using pixel_at_mem [OF wf that] u by simp
  have "edge_pixels a \<noteq> []" using w by (simp add: edge_pixels_def row_of_def)
  moreover have "\<forall>p \<in> set (edge_pixels a). p = c"
    using w h by (auto simp: edge_pixels_def row_of_def column_of_def m)
  ultimately show ?thesis by simp
qed

lemma clustering_mask_uniform:
  assumes ok: "float_ok lib" and wf: "wf_grid a" and w: "0 < width a" and h: "0 < height a"
    and u: "\<forall>p \<in> set (pixels a). p = c"
  shows "clustering_mask lib a = tabulate (width a) (height a) (\<lambda>x y. 0)"
proof -
  from edge_pixels_uniform [OF wf w h u] have e: "edge_pixels a \<noteq> []"
    "\<forall>p \<in> set (edge_pixels a). p = c" by simp_all
  have d: "\<not> color_distance lib (pixel_at a (i mod width a) (i div width a))
               (mean_color lib (edge_pixels a))
             > threshold lib (width a) (height a) (i mod width a) (i div width a)"
    if "i < width a * height a" for i
  proof -
    from that w have "i div width a < height a"
      by (simp add: less_mult_imp_div_less mult.commute)
    with pixel_at_mem [OF wf, of "i mod width a" "i div width a"] w u
    have "pixel_at a (i mod width a) (i div width a) = c" by simp
    with color_distance_uniform [OF ok e]
      threshold_ge_60 [OF ok, of "width a" "height a" "i mod width a" "i div width a"]
    show ?thesis by simp
  qed
  have "map (\<lambda>i. if color_distance lib (pixel_at a (i mod width a) (i div width a))
                       (mean_color lib (edge_pixels a))
                     > threshold lib (width a) (height a) (i mod width a) (i div width a)
                  then 255 else 0) [0..<width a * height a] =
        map (\<lambda>i. 0 :: u8) [0..<width a * height a]"
    by (rule map_cong) (simp_all add: d)
  then show ?thesis
    by (simp add: clustering_mask_def Let_def tabulate_def)
qed

lemma convert_RGB_uniform:
  "uniform img c \<Longrightarrow> \<forall>p \<in> set (pixels (convert_RGB img)). p = to_rgb (mode img) c"
  by (auto simp: uniform_def convert_RGB_def list_all_iff)

lemma convert_RGB_wf: "wf_grid (raster img) \<Longrightarrow> wf_grid (convert_RGB img)"
  by (simp add: wf_grid_def convert_RGB_def)

lemma color_clustering_removal_uniform:
  assumes wf: "wf_image img" and u: "uniform img c" and kb: "keeps_blank (GaussianBlur lib)"
    and ok: "float_ok lib"
    and r: "color_clustering_removal lib img = Inr r"
  shows "fully_transparent r"
proof -
  let ?a = "convert_RGB img"
  from wf have w: "0 < width ?a" and h: "0 < height ?a" and wfa: "wf_grid ?a"
    by (simp_all add: wf_image_def convert_RGB_wf)
  from clustering_mask_uniform [OF ok wfa w h convert_RGB_uniform [OF u]]
  have cm: "clustering_mask lib ?a = tabulate (width ?a) (height ?a) (\<lambda>x y. 0)" .
  from r w h obtain g where g: "GaussianBlur lib (clustering_mask lib ?a) = Inr g"
    and c: "composite 100 g (convert_RGBA img) (width ?a) (height ?a) = Inr r"
    by (auto simp: color_clustering_removal_def Let_def ebind_eq_Inr)
  have "blank (clustering_mask lib ?a) \<and> wf_grid (clustering_mask lib ?a)"
    by (simp add: cm blank_tabulate)
  with kb g have "blank g \<and> wf_grid g"
    unfolding keeps_blank_def by blast
  then have bg: "blank g" and wfg: "wf_grid g" by simp_all
  from composite_fully_transparent [OF c bg wfg] show ?thesis .
qed

lemma range_step_less:
  assumes s: "0 < s" and i: "i \<in> set (range_step n s)"
  shows "i < n"
proof -
  from i obtain k where k: "k < (n + s - 1) div s" and ik: "i = k * s"
    by (auto simp: range_step_def)
  from k have "Suc k * s \<le> ((n + s - 1) div s) * s" by (intro mult_le_mono1) simp
  also have "\<dots> \<le> n + s - 1" by (simp add: div_times_less_eq_dividend)
  finally have "k * s + s \<le> n + s - 1" by simp
  with s ik show ?thesis by simp
qed

lemma range_step_nonempty: "0 < n \<Longrightarrow> 0 < s \<Longrightarrow> range_step n s \<noteq> []"
proof -
  assume n: "0 < n" and s: "0 < s"
  then have "s \<le> n + s - 1" by simp
  then have "1 \<le> (n + s - 1) div s" using s by (simp add: div_greater_zero_iff Suc_le_eq)
  then show ?thesis by (auto simp: range_step_def)
qed

lemma border_width_bounds: "j < border_width w h \<Longrightarrow> j < w \<and> j < h \<and> j \<le> w - 1 \<and> j \<le> h - 1"
proof -
  assume j: "j < border_width w h"
  have "min w h div 20 \<le> min w h" by (rule div_le_dividend)
  with j have "j < min w h" by (simp add: border_width_def)
  then show ?thesis by auto
qed

lemma sample_coords_in_range:
  assumes "(x, y) \<in> set (sample_coords w h)"
  shows "x < w \<and> y < h"
proof -
  have sw: "0 < max 1 (w div 50)" and sh: "0 < max 1 (h div 50)" by simp_all
  from assms consider
      i j where "i \<in> set (range_step w (max 1 (w div 50)))" "j < border_width w h"
        "(x, y) = (i, j) \<or> (x, y) = (i, h - 1 - j)"
    | i j where "i \<in> set (range_step h (max 1 (h div 50)))" "j < border_width w h"
        "(x, y) = (j, i) \<or> (x, y) = (w - 1 - j, i)"
    by (auto simp: sample_coords_def)
  then show ?thesis
  proof cases
    case 1
    from range_step_less [OF sw 1(1)] border_width_bounds [OF 1(2)] 1(3)
    show ?thesis by auto
  next
    case 2
    from range_step_less [OF sh 2(1)] border_width_bounds [OF 2(2)] 2(3)
    show ?thesis by auto
  qed
qed

lemma sample_coords_nonempty:
  assumes "20 \<le> min w h"
  shows "sample_coords w h \<noteq> []"
proof -
  from assms have w: "0 < w" by simp
  from assms have "0 < border_width w h"
    by (simp add: border_width_def div_greater_zero_iff)
  then have ub: "[0..<border_width w h] = 0 # [Suc 0..<border_width w h]"
    by (rule upt_conv_Cons)
  have "s \<le> w + s - 1" for s :: nat using w by arith
  then have "max 1 (w div 50) \<le> w + max 1 (w div 50) - 1" .
  then have "0 < (w + max 1 (w div 50) - 1) div max 1 (w div 50)"
    by (simp add: div_greater_zero_iff)
  then have ur: "[0..<(w + max 1 (w div 50) - 1) div max 1 (w div 50)] =
      0 # [Suc 0..<(w + max 1 (w div 50) - 1) div max 1 (w div 50)]"
    by (rule upt_conv_Cons)
  show ?thesis
    unfolding sample_coords_def range_step_def ub ur by simp
qed

lemma mapE_map:
  "\<forall>c \<in> set cs. f c = Inr (g c) \<Longrightarrow> mapE f cs = Inr (map g cs)"
  by (induction cs) simp_all

lemma sample_points_value:
  "sample_points img =
     Inr (map (\<lambda>(x, y). pixel_at img x y) (sample_coords (width img) (height img)))"
  unfolding sample_points_def
  by (rule mapE_map) (auto simp: getpixel_def dest: sample_coords_in_range)

lemma counter_add_keys: "fst ` set (counter_add x kvs) = insert x (fst ` set kvs)"
  by (induction x kvs rule: counter_add.induct) auto

lemma fold_counter_add_keys: "fst ` set (fold counter_add xs acc) = set xs \<union> fst ` set acc"
  by (induction xs arbitrary: acc) (auto simp: counter_add_keys)

lemma Counter_keys: "fst ` set (Counter xs) = set xs"
  by (simp add: Counter_def fold_counter_add_keys)

lemma first_max_mem: "first_max kv kvs \<in> set (kv # kvs)"
proof -
  have "fold (\<lambda>c best. if snd best < snd c then c else best) kvs kv \<in> insert kv (set kvs)"
    by (induction kvs arbitrary: kv) auto
  then show ?thesis by (simp add: first_max_def)
qed

lemma most_common_key_mem:
  assumes "xs \<noteq> []"
  shows "\<exists>k. most_common_key (Counter xs) = Inr k \<and> k \<in> set xs"
proof (cases "Counter xs")
  case Nil
  with Counter_keys [of xs] assms show ?thesis by simp
next
  case (Cons kv kvs)
  from first_max_mem [of kv kvs] Cons have "fst (first_max kv kvs) \<in> fst ` set (Counter xs)"
    by (intro imageI) simp
  then have "fst (first_max kv kvs) \<in> set xs" by (simp only: Counter_keys)
  with Cons show ?thesis by (simp add: most_common_key_def)
qed

lemma convert_RGBA_uniform:
  "uniform img c \<Longrightarrow> \<forall>p \<in> set (pixels (convert_RGBA img)). p = to_rgba (mode img) c"
  by (auto simp: uniform_def convert_RGBA_def list_all_iff)

lemma new_data_uniform:
  assumes ok: "float_ok lib" and u: "\<forall>p \<in> set (pixels img). p = c"
  shows "new_data lib img c = replicate (length (pixels img)) (255, 255, 255, 0)"
proof (rule nth_equalityI)
  show "length (new_data lib img c) = length (replicate (length (pixels img)) (255, 255, 255, 0))"
    by simp
next
  fix i assume "i < length (new_data lib img c)"
  then have i: "i < length (pixels img)" by simp
  with u have "pixels img ! i = c" by simp
  with new_data_nth [OF i, of lib c] classified_background_self [OF ok, of "width img" "height img" c i] i
  show "new_data lib img c ! i = replicate (length (pixels img)) (255, 255, 255, 0) ! i"
    by simp
qed

lemma occupancy_mask_blank:
  assumes "\<forall>p \<in> set (pixels img). alpha p = 0" "wf_grid img"
  shows "blank (occupancy_mask img) \<and> wf_grid (occupancy_mask img)"
proof -
  have "(if 0 < uint (alpha (pixel_at img (i mod width img) (i div width img))) then 255 else 0) = (0 :: u8)"
    if i: "i < width img * height img" for i
  proof -
    from i have w: "0 < width img" by (cases "width img") simp_all
    from i w have "i div width img < height img"
      by (simp add: less_mult_imp_div_less mult.commute)
    with pixel_at_mem [OF assms(2), of "i mod width img" "i div width img"] w assms(1)
    show ?thesis by simp
  qed
  then show ?thesis
    by (simp add: occupancy_mask_def blank_def tabulate_def list_all_iff wf_grid_def)
qed

lemma smart_v2_body_uniform:
  assumes wf: "wf_image img" and u: "uniform img c"
    and big: "20 \<le> min (width (raster img)) (height (raster img))"
    and kb: "keeps_blank (MedianFilter lib)" and ok: "float_ok lib"
    and r: "smart_v2_body lib img = Inr r"
  shows "fully_transparent r"
proof -
  let ?i = "convert_RGBA img"
  let ?c = "to_rgba (mode img) c"
  from wf have wfi: "wf_grid ?i" by (simp add: wf_image_def convert_RGBA_wf)
  note all = convert_RGBA_uniform [OF u]
  let ?pts = "map (\<lambda>(x, y). pixel_at ?i x y) (sample_coords (width ?i) (height ?i))"
  have pts: "sample_points ?i = Inr ?pts" by (rule sample_points_value)
  from sample_coords_nonempty [of "width ?i" "height ?i"] big have ne: "?pts \<noteq> []" by simp
  have "\<forall>p \<in> set ?pts. p = ?c"
    using all pixel_at_mem [OF wfi] by (auto dest!: sample_coords_in_range)
  with most_common_key_mem [OF ne] have bg: "most_common_key (Counter ?pts) = Inr ?c" by auto
  let ?img' = "?i\<lparr>pixels := new_data lib ?i ?c\<rparr>"
  from r pts bg have rs: "remove_small_regions lib ?img' = Inr r"
    by (simp add: smart_v2_body_def Let_def)
  then obtain m where m: "MedianFilter lib (occupancy_mask ?img') = Inr m"
    and c: "composite 128 m ?img' (width ?img') (height ?img') = Inr r"
    by (auto simp: remove_small_regions_def ebind_eq_Inr)
  have "\<forall>p \<in> set (pixels ?img'). alpha p = 0"
    by (simp add: new_data_uniform [OF ok all] alpha_def)
  moreover from wfi have "wf_grid ?img'" by (simp add: wf_grid_def)
  ultimately have "blank (occupancy_mask ?img') \<and> wf_grid (occupancy_mask ?img')"
    by (rule occupancy_mask_blank)
  with kb m have "blank m \<and> wf_grid m" unfolding keeps_blank_def by blast
  then have "blank m" "wf_grid m" by simp_all
  from composite_fully_transparent [OF c this] show ?thesis .
qed

lemma smart_v2_uniform:
  assumes wf: "wf_image img" and u: "uniform img c"
    and big: "20 \<le> min (width (raster img)) (height (raster img))"
    and kb: "keeps_blank (MedianFilter lib)" and ks: "keeps_size (MedianFilter lib)"
    and ok: "float_ok lib"
  shows "\<exists>r. smart_background_removal_v2 lib img = Inr r \<and> fully_transparent r"
proof -
  let ?i = "convert_RGBA img"
  let ?c = "to_rgba (mode img) c"
  from wf have wfi: "wf_grid ?i" by (simp add: wf_image_def convert_RGBA_wf)
  note all = convert_RGBA_uniform [OF u]
  let ?pts = "map (\<lambda>(x, y). pixel_at ?i x y) (sample_coords (width ?i) (height ?i))"
  have pts: "sample_points ?i = Inr ?pts" by (rule sample_points_value)
  from sample_coords_nonempty [of "width ?i" "height ?i"] big have ne: "?pts \<noteq> []" by simp
  from most_common_key_mem [OF ne] obtain k where k: "most_common_key (Counter ?pts) = Inr k"
    by blast
  let ?img' = "?i\<lparr>pixels := new_data lib ?i k\<rparr>"
  from keeps_sizeD [OF ks, of "occupancy_mask ?img'"] obtain m
    where m: "MedianFilter lib (occupancy_mask ?img') = Inr m"
      and ms: "width m = width ?img'" "height m = height ?img'"
    by (auto simp: occupancy_mask_def)
  from composite_total [of "width ?img'" m "height ?img'" ?img' 128] ms
  obtain r where "composite 128 m ?img' (width ?img') (height ?img') = Inr r" by auto
  with m pts k have b: "smart_v2_body lib img = Inr r"
    by (simp add: smart_v2_body_def Let_def remove_small_regions_def)
  from smart_v2_body_uniform [OF wf u big kb ok b] b show ?thesis
    by (simp add: smart_background_removal_v2_def)
qed

section \<open>What strategy 4 writes\<close>

lemma float_ok_stub: "float_ok stub_pil"
  by (simp add: float_ok_def stub_pil_def sum_list_replicate)

lemma sample_coords_in_strip:
  assumes "(x, y) \<in> set (sample_coords w h)"
  shows "x < border_width w h \<or> y < border_width w h \<or>
     w - 1 - border_width w h < x \<or> h - 1 - border_width w h < y"
proof -
  have "min w h div 20 * 20 \<le> min w h" by (rule div_times_less_eq_dividend)
  then have b: "border_width w h * 20 \<le> w" "border_width w h * 20 \<le> h"
    by (simp_all add: border_width_def)
  from assms consider
      i j where "i \<in> set (range_step w (max 1 (w div 50)))" "j < border_width w h"
        "(x, y) = (i, j) \<or> (x, y) = (i, h - 1 - j)"
    | i j where "i \<in> set (range_step h (max 1 (h div 50)))" "j < border_width w h"
        "(x, y) = (j, i) \<or> (x, y) = (w - 1 - j, i)"
    by (auto simp: sample_coords_def)
  then show ?thesis using b by cases auto
qed

text \<open>
  Claim C9. For every well-formed image whose smaller dimension is at least 20, and a
  median filter that keeps the size, strategy 4 finds a background colour and returns
  an image. The data it writes back to the image hold, at every pixel position, the
  fixed value \<open>(255, 255, 255, 0)\<close> when the pixel is classified as background
  (its colour distance is below its tolerance) and the pixel unchanged otherwise. The
  image it returns takes each pixel from these data where the filtered occupancy mask
  is above 128 and is transparent elsewhere.
\<close>

theorem smart_v2_writes:
  assumes wf: "wf_image img" and big: "20 \<le> min (width (raster img)) (height (raster img))"
    and ks: "keeps_size (MedianFilter lib)"
  shows "\<exists>points bg_color mask_img r.
     sample_points (convert_RGBA img) = Inr points \<and>
     most_common_key (Counter points) = Inr bg_color \<and>
     MedianFilter lib (occupancy_mask
       ((convert_RGBA img)\<lparr>pixels := new_data lib (convert_RGBA img) bg_color\<rparr>)) = Inr mask_img \<and>
     smart_v2_body lib img = Inr r \<and>
     (\<forall>x y. x < width (raster img) \<and> y < height (raster img) \<longrightarrow>
        new_data lib (convert_RGBA img) bg_color ! (y * width (raster img) + x) =
          (if classified_background lib (width (raster img)) (height (raster img)) bg_color
                (y * width (raster img) + x) (pixel_at (convert_RGBA img) x y)
           then (255, 255, 255, 0) else pixel_at (convert_RGBA img) x y) \<and>
        pixel_at r x y =
          (if 128 < unat (pixel_at mask_img x y)
           then new_data lib (convert_RGBA img) bg_color ! (y * width (raster img) + x)
           else transparent))"
proof -
  let ?i = "convert_RGBA img"
  let ?w = "width (raster img)" and ?h = "height (raster img)"
  from wf have len: "length (pixels ?i) = ?w * ?h"
    by (simp add: wf_image_def wf_grid_def convert_RGBA_def)
  let ?pts = "map (\<lambda>(x, y). pixel_at ?i x y) (sample_coords (width ?i) (height ?i))"
  have pts: "sample_points ?i = Inr ?pts" by (rule sample_points_value)
  from sample_coords_nonempty [of "width ?i" "height ?i"] big have ne: "?pts \<noteq> []" by simp
  from most_common_key_mem [OF ne] obtain k where k: "most_common_key (Counter ?pts) = Inr k"
    by blast
  let ?img' = "?i\<lparr>pixels := new_data lib ?i k\<rparr>"
  from keeps_sizeD [OF ks, of "occupancy_mask ?img'"] obtain m
    where m: "MedianFilter lib (occupancy_mask ?img') = Inr m"
      and ms: "width m = width ?img'" "height m = height ?img'"
    by (auto simp: occupancy_mask_def)
  from composite_total [of "width ?img'" m "height ?img'" ?img' 128] ms
  obtain r where c: "composite 128 m ?img' (width ?img') (height ?img') = Inr r" by auto
  with m pts k have b: "smart_v2_body lib img = Inr r"
    by (simp add: smart_v2_body_def Let_def remove_small_regions_def)
  have px: "new_data lib ?i k ! (y * ?w + x) =
          (if classified_background lib ?w ?h k (y * ?w + x) (pixel_at ?i x y)
           then (255, 255, 255, 0) else pixel_at ?i x y) \<and>
        pixel_at r x y =
          (if 128 < unat (pixel_at m x y) then new_data lib ?i k ! (y * ?w + x)
           else transparent)"
    if x: "x < ?w" and y: "y < ?h" for x y
  proof -
    from index_bound [OF x y] len have i: "y * ?w + x < length (pixels ?i)" by simp
    have p: "pixels ?i ! (y * ?w + x) = pixel_at ?i x y" by (simp add: pixel_at_def)
    from x y have x': "x < width ?img'" and y': "y < height ?img'" by simp_all
    have "pixel_at ?img' x y = new_data lib ?i k ! (y * ?w + x)"
      by (simp add: pixel_at_def)
    with composite_pixel [OF c x' y'] new_data_nth [OF i, of lib k] p
    show ?thesis by simp
  qed
  from pts k m b px show ?thesis by blast
qed

lemma pixel_at_convert_RGBA:
  assumes "wf_grid (raster img)" "x < width (raster img)" "y < height (raster img)"
  shows "pixel_at (convert_RGBA img) x y = to_rgba (mode img) (pixel_at (raster img) x y)"
  using index_bound [OF assms(2,3)] assms(1)
  by (simp add: pixel_at_def convert_RGBA_def wf_grid_def)

lemma wf_spot_image: "wf_image spot_image"
proof -
  have "list_all (\<lambda>p. length p = bands (mode spot_image)) (pixels (raster spot_image))"
    by (auto simp: spot_image_def list_all_iff tabulate_def)
  then show ?thesis by (simp add: wf_image_def) (simp add: spot_image_def)
qed

lemma spot_image_size [simp]:
  "width (raster spot_image) = 20" "height (raster spot_image) = 20" "mode spot_image = RGB"
  by (simp_all add: spot_image_def)

lemma spot_image_pixel:
  assumes "x < 20" "y < 20"
  shows "pixel_at (convert_RGBA spot_image) x y =
     (if in_spot x y then (200, 0, 0, 255) else (10, 20, 30, 255))"
proof -
  have "wf_grid (raster spot_image)" using wf_spot_image by (simp add: wf_image_def)
  from pixel_at_convert_RGBA [OF this, of x y] assms show ?thesis
    by (simp add: spot_image_def pixel_at_tabulate)
qed

lemma spot_image_tolerance: "tolerance stub_pil 20 20 210 = 30"
  by (simp add: tolerance_def Let_def stub_pil_def)

lemma spot_image_kept:
  "\<not> classified_background stub_pil 20 20 (10, 20, 30, 255) 210 (200, 0, 0, 255)"
proof -
  have "(30 :: real) \<le> sqrt 37400" by (rule real_le_rsqrt) simp
  then have "\<not> (37400 :: real) powr (1 / 2) < 30" by (simp add: powr_half_sqrt)
  moreover have "rgb_distance stub_pil (200, 0, 0, 255) (10, 20, 30, 255) = 37400 powr (1 / 2)"
    by (simp add: rgb_distance_def stub_pil_def)
  ultimately show ?thesis
    by (simp add: classified_background_def spot_image_tolerance)
qed

theorem smart_v2_writes_witness:
  "wf_image spot_image \<and>
   20 \<le> min (width (raster spot_image)) (height (raster spot_image)) \<and>
   keeps_size (MedianFilter stub_pil) \<and>
   (\<exists>r. smart_v2_body stub_pil spot_image = Inr r \<and>
      new_data stub_pil (convert_RGBA spot_image) (10, 20, 30, 255) ! 0 = (255, 255, 255, 0) \<and>
      new_data stub_pil (convert_RGBA spot_image) (10, 20, 30, 255) ! 210 = (200, 0, 0, 255) \<and>
      pixel_at r 0 0 = transparent \<and> pixel_at r 10 10 = (200, 0, 0, 255))"
proof -
  let ?i = "convert_RGBA spot_image"
  let ?c = "(10, 20, 30, 255) :: rgba"
  have big: "20 \<le> min (width (raster spot_image)) (height (raster spot_image))" by simp
  have ks: "keeps_size (MedianFilter stub_pil)" using pil_ok_stub by (simp add: pil_ok_def)
  from smart_v2_writes [OF wf_spot_image big ks] obtain pts k m r
    where pts: "sample_points ?i = Inr pts" and k: "most_common_key (Counter pts) = Inr k"
      and m: "MedianFilter stub_pil (occupancy_mask (?i\<lparr>pixels := new_data stub_pil ?i k\<rparr>)) = Inr m"
      and r: "smart_v2_body stub_pil spot_image = Inr r"
      and px: "\<And>x y. x < 20 \<Longrightarrow> y < 20 \<Longrightarrow>
        new_data stub_pil ?i k ! (y * 20 + x) =
          (if classified_background stub_pil 20 20 k (y * 20 + x) (pixel_at ?i x y)
           then (255, 255, 255, 0) else pixel_at ?i x y) \<and>
        pixel_at r x y =
          (if 128 < unat (pixel_at m x y) then new_data stub_pil ?i k ! (y * 20 + x)
           else transparent)"
    by auto
  have pv: "pts = map (\<lambda>(x, y). pixel_at ?i x y) (sample_coords 20 20)"
    using pts sample_points_value [of ?i] by simp
  have all: "\<forall>p \<in> set pts. p = ?c"
  proof
    fix p assume "p \<in> set pts"
    with pv obtain x y where xy: "(x, y) \<in> set (sample_coords 20 20)" and p: "p = pixel_at ?i x y"
      by auto
    from sample_coords_in_range [OF xy] have "x < 20" "y < 20" by simp_all
    moreover from sample_coords_in_strip [OF xy] have "\<not> in_spot x y"
      by (auto simp: border_width_def in_spot_def)
    ultimately show "p = ?c" using p by (simp add: spot_image_pixel)
  qed
  have "pts \<noteq> []" using k by (auto simp: most_common_key_def Counter_def)
  from most_common_key_mem [OF this] k all have kc: "k = ?c" by auto
  have mm: "m = occupancy_mask (?i\<lparr>pixels := new_data stub_pil ?i ?c\<rparr>)"
    using m by (simp add: stub_pil_def kc)
  have n0: "new_data stub_pil ?i ?c ! 0 = (255, 255, 255, 0)"
    using px [of 0 0] classified_background_self [OF float_ok_stub, of 20 20 ?c 0]
    by (simp add: kc spot_image_pixel in_spot_def)
  have n210: "new_data stub_pil ?i ?c ! 210 = (200, 0, 0, 255)"
    using px [of 10 10] spot_image_kept by (simp add: kc spot_image_pixel in_spot_def)
  have m0: "pixel_at m 0 0 = 0"
    by (simp add: mm occupancy_mask_def pixel_at_tabulate) (simp add: pixel_at_def n0 alpha_def)
  have m210: "pixel_at m 10 10 = 255"
    by (simp add: mm occupancy_mask_def pixel_at_tabulate) (simp add: pixel_at_def n210 alpha_def)
  have r0: "pixel_at r 0 0 = transparent" using px [of 0 0] m0 by simp
  have r210: "pixel_at r 10 10 = (200, 0, 0, 255)" using px [of 10 10] m210 n210 by (simp add: kc)
  from wf_spot_image big ks r n0 n210 r0 r210 show ?thesis by blast
qed

text \<open>
  Claim C5 (the code departs from it). A 2 by 2 image whose four pixels are
  \<open>(10, 20, 30)\<close> is returned by strategy 4 with all four pixels opaque: the border
  width is 0, no sample is taken and the handler returns the converted original. For
  images whose smaller dimension is at least 20 the claim holds for strategy 4
  (\<open>smart_v2_uniform\<close>), and it holds for strategy 2 on every image
  (\<open>color_clustering_removal_uniform\<close>), for filters that map an empty mask to an
  empty mask and floating-point operations that are exact on the values of a colour
  compared with itself.
\<close>

theorem uniform_small_image_not_removed:
  "smart_background_removal_v2 stub_pil (uniform_image 2 2 [10, 20, 30]) =
     Inr \<lparr>width = 2, height = 2,
          pixels = [(10, 20, 30, 255), (10, 20, 30, 255), (10, 20, 30, 255), (10, 20, 30, 255)]\<rparr>"
proof -
  have m: "min (width (raster (uniform_image 2 2 [10, 20, 30])))
       (height (raster (uniform_image 2 2 [10, 20, 30]))) < 20"
    by (simp add: uniform_image_def)
  have four: "replicate 4 x = [x, x, x, x]" for x :: "u8 list"
    by (simp add: numeral_eq_Suc)
  from smart_v2_small [OF m, of stub_pil] show ?thesis
    by (simp add: convert_RGBA_def uniform_image_def new_image_def four)
qed

end
